theory Spec2Isabelle
  imports Main "HOL-Library.Sublist" "HOL-Library.Multiset" "HOL-Library.Word"
    "HOL-Library.Monad_Syntax"
begin

section \<open>Strings\<close>

text \<open>
  A Python \<open>str\<close> is modelled as a \<open>string\<close>, one \<open>char\<close> per character, so that
  \<open>length\<close> is Python's \<open>len\<close>. On an ASCII string \<open>str.lower()\<close> and \<open>str.upper()\<close> change
  the letters \<open>A\<close> to \<open>Z\<close> and \<open>a\<close> to \<open>z\<close> and nothing else, and so do \<open>str_lower\<close> and
  \<open>str_upper\<close>. Python also maps letters outside ASCII, which the model leaves as they
  are: what is stated of a case mapping is stated of ASCII strings.
\<close>

definition is_ascii :: "string \<Rightarrow> bool" where
  "is_ascii s = list_all (\<lambda>c. \<not> digit7 c) s"

definition lower_char :: "char \<Rightarrow> char" where
  "lower_char c =
     (case map_of (zip ''ABCDEFGHIJKLMNOPQRSTUVWXYZ'' ''abcdefghijklmnopqrstuvwxyz'') c of
        Some l \<Rightarrow> l
      | None \<Rightarrow> c)"

definition upper_char :: "char \<Rightarrow> char" where
  "upper_char c =
     (case map_of (zip ''abcdefghijklmnopqrstuvwxyz'' ''ABCDEFGHIJKLMNOPQRSTUVWXYZ'') c of
        Some u \<Rightarrow> u
      | None \<Rightarrow> c)"

definition str_lower :: "string \<Rightarrow> string" where
  "str_lower s = map lower_char s"

definition str_upper :: "string \<Rightarrow> string" where
  "str_upper s = map upper_char s"

text \<open>Python's \<open>needle in hay\<close> on two strings: \<open>needle\<close> occurs in \<open>hay\<close> as a
  contiguous run of characters. The empty string occurs in every string.\<close>

fun str_contains :: "string \<Rightarrow> string \<Rightarrow> bool" where
  "str_contains [] needle = (needle = [])"
| "str_contains (c # cs) needle = (prefix needle (c # cs) \<or> str_contains cs needle)"

text \<open>Truthiness of an optional string argument (\<open>if friendly_name:\<close>): \<open>None\<close> and the
  empty string are false.\<close>

fun truthy :: "string option \<Rightarrow> bool" where
  "truthy None = False"
| "truthy (Some s) = (s \<noteq> [])"

text \<open>\<open>x or ""\<close> on an optional string.\<close>

fun or_empty :: "string option \<Rightarrow> string" where
  "or_empty None = []"
| "or_empty (Some s) = s"

text \<open>Following the spec's words ("equals ignoring case"), for ASCII strings: two strings
  are equal once both are brought to one case.\<close>

definition equal_ignoring_case :: "string \<Rightarrow> string \<Rightarrow> bool" where
  "equal_ignoring_case a b = (str_upper a = str_upper b)"

section \<open>Data model\<close>

text \<open>A UUID is a 128-bit value. A \<open>datetime\<close> is its fields: year, month, day, hour,
  minute, second, microsecond, and the offset from UTC in seconds when it has one.\<close>

datatype uuid = UUID "128 word"

datatype datetime = Datetime nat nat nat nat nat nat nat "int option"

record Model =
  deviceType :: string
  manufacturer :: "string option"
  modelNumber :: "string option"
  hardwareVersion :: "string option"
  description :: "string option"

record Unit =
  serialNumber :: "string option"
  firmwareVersion :: "string option"
  firmwareDate :: "datetime option"

record Interface =
  macAddress :: string
  interfaceType :: string
  band :: "string option"

record Connection =
  conn_macAddress :: string
  ipAddress :: "string option"
  ipv6Address :: "string option"
  parentDeviceID :: "uuid option"

record Property =
  prop_name :: string
  prop_value :: string

record Device =
  deviceID :: uuid
  lastChangeRevision :: int
  model :: Model
  unit :: Unit
  isAuthority :: bool
  nodeType :: "string option"
  friendlyName :: "string option"
  knownInterfaces :: "Interface list"
  connections :: "Connection list"
  properties :: "Property list"
  maxAllowedProperties :: int

record DeviceStatus =
  device :: Device
  is_online :: bool
  online_interfaces :: "Interface list"

section \<open>Filtering and reconciliation\<close>

text \<open>The two steps of \<open>filter_devices\<close>, each guarded by the truthiness of its
  argument.\<close>

definition filter_friendly :: "string option \<Rightarrow> Device list \<Rightarrow> Device list" where
  "filter_friendly friendly_name devices =
     (if truthy friendly_name
      then filter (\<lambda>d. str_contains (str_lower (or_empty (friendlyName d)))
                                     (str_lower (or_empty friendly_name))) devices
      else devices)"

definition filter_mac :: "string option \<Rightarrow> Device list \<Rightarrow> Device list" where
  "filter_mac mac_address devices =
     (if truthy mac_address
      then (let mac_address' = str_upper (or_empty mac_address)
            in filter (\<lambda>d. list_ex (\<lambda>i. macAddress i = mac_address') (knownInterfaces d))
                 devices)
      else devices)"

definition filter_devices :: "Device list \<Rightarrow> string option \<Rightarrow> string option \<Rightarrow> Device list" where
  "filter_devices devices friendly_name mac_address =
     filter_mac mac_address (filter_friendly friendly_name devices)"

definition get_device_status :: "Device \<Rightarrow> string set \<Rightarrow> DeviceStatus" where
  "get_device_status dev online_macs =
     (let online_ifs = filter (\<lambda>i. macAddress i \<in> online_macs) (knownInterfaces dev)
      in \<lparr>device = dev, is_online = (online_ifs \<noteq> []), online_interfaces = online_ifs\<rparr>)"

section \<open>The main pipeline\<close>

record Args =
  online :: bool
  offline :: bool
  friendly :: "string option"
  mac :: "string option"

text \<open>What \<open>main\<close> writes, one value per call of a printing function: the section of the
  online devices, the section of the offline devices, and the summary line with its filter
  description and its three counts.\<close>

datatype printed =
    Print_online "DeviceStatus list"
  | Print_offline "DeviceStatus list"
  | Print_summary string nat nat nat

text \<open>The inventory rule of \<open>main\<close>: a device whose friendly name has 36 characters and a
  hyphen is dropped.\<close>

definition uuid_named :: "Device \<Rightarrow> bool" where
  "uuid_named d =
     (length (or_empty (friendlyName d)) = 36 \<and> CHR ''-'' \<in> set (or_empty (friendlyName d)))"

definition labelled_devices :: "Device list \<Rightarrow> Device list" where
  "labelled_devices inventory = filter (\<lambda>d. \<not> uuid_named d) inventory"

definition selected_devices :: "Args \<Rightarrow> Device list \<Rightarrow> Device list" where
  "selected_devices args inventory =
     filter_devices (labelled_devices inventory) (friendly args) (mac args)"

definition filter_msg :: "Args \<Rightarrow> string" where
  "filter_msg args =
     (if truthy (friendly args) \<or> truthy (mac args)
      then '' matching '' @ (if truthy (friendly args) then ''friendly name'' else ''MAC'')
           @ '' '' @ [CHR 0x27]
           @ (if truthy (friendly args) then or_empty (friendly args) else or_empty (mac args))
           @ [CHR 0x27]
      else [])"

definition device_statuses :: "Device list \<Rightarrow> string set \<Rightarrow> DeviceStatus list" where
  "device_statuses devices online_macs = map (\<lambda>d. get_device_status d online_macs) devices"

definition online_of :: "DeviceStatus list \<Rightarrow> DeviceStatus list" where
  "online_of statuses = filter (\<lambda>s. is_online s) statuses"

definition offline_of :: "DeviceStatus list \<Rightarrow> DeviceStatus list" where
  "offline_of statuses = filter (\<lambda>s. \<not> is_online s) statuses"

definition main :: "Args \<Rightarrow> Device list \<Rightarrow> string set \<Rightarrow> printed list" where
  "main args inventory online_macs =
     (let devices = selected_devices args inventory;
          statuses = device_statuses devices online_macs;
          online_l = online_of statuses;
          offline_l = offline_of statuses
      in (if \<not> offline args \<or> online args then [Print_online online_l] else [])
       @ (if \<not> online args \<or> offline args then [Print_offline offline_l] else [])
       @ (if \<not> online args \<and> \<not> offline args
          then [Print_summary (filter_msg args) (length devices) (length online_l)
                  (length offline_l)]
          else []))"

text \<open>Reading what was written: is there a summary line, and which sections are there.\<close>

fun is_summary :: "printed \<Rightarrow> bool" where
  "is_summary (Print_summary msg n n_on n_off) = True"
| "is_summary p = False"

definition sections :: "printed list \<Rightarrow> printed list" where
  "sections out = filter (\<lambda>p. \<not> is_summary p) out"

section \<open>Example devices\<close>

definition tv_interface :: Interface where
  "tv_interface = \<lparr>macAddress = ''AA:BB:CC:DD:EE:FF'', interfaceType = ''Wireless'', band = None\<rparr>"

definition plain_device :: "string option \<Rightarrow> Interface list \<Rightarrow> Device" where
  "plain_device label ifs =
     \<lparr>deviceID = UUID 1, lastChangeRevision = 1,
      model = \<lparr>deviceType = ''Computer'', manufacturer = None, modelNumber = None,
                hardwareVersion = None, description = None\<rparr>,
      unit = \<lparr>serialNumber = None, firmwareVersion = None, firmwareDate = None\<rparr>,
      isAuthority = False, nodeType = None, friendlyName = label,
      knownInterfaces = ifs, connections = [], properties = [], maxAllowedProperties = 16\<rparr>"

definition living_room_tv :: Device where
  "living_room_tv = plain_device (Some ''Living Room TV'') [tv_interface]"

definition lowercase_tv :: Device where
  "lowercase_tv =
     plain_device (Some ''Living Room TV'') [tv_interface\<lparr>macAddress := ''aa:bb:cc:dd:ee:ff''\<rparr>]"

definition unlabelled_device :: Device where
  "unlabelled_device = plain_device (Some ''550e8400-e29b-41d4-a716-446655440000'') [tv_interface]"

definition bare_device :: Device where
  "bare_device = plain_device None []"


section \<open>JSON values and errors\<close>

text \<open>What \<open>response.json()\<close> returns: \<open>None\<close>, a \<open>bool\<close>, an \<open>int\<close>, a \<open>float\<close> (by mantissa
  and binary exponent), a \<open>str\<close>, a \<open>list\<close>, or a \<open>dict\<close> with string keys. A \<open>dict\<close> is an
  association list, read with \<open>map_of\<close>; the keys of a \<open>dict\<close> are distinct.\<close>

datatype json =
    JNull
  | JBool bool
  | JInt int
  | JFloat int int
  | JStr string
  | JList "json list"
  | JObj "(string \<times> json) list"

type_synonym dict = "(string \<times> json) list"

text \<open>The exceptions the parsing code can raise.\<close>

datatype error = KeyError | IndexError | TypeError | AttributeError | ValidationError

text \<open>\<open>d[k]\<close> with a string key: a \<open>dict\<close> without the key raises \<open>KeyError\<close>, every other
  value raises \<open>TypeError\<close>.\<close>

fun subscript_key :: "json \<Rightarrow> string \<Rightarrow> error + json" where
  "subscript_key (JObj kvs) k = (case map_of kvs k of None \<Rightarrow> Inl KeyError | Some v \<Rightarrow> Inr v)"
| "subscript_key j k = Inl TypeError"

text \<open>\<open>x[0]\<close>: the first element of a list or string, \<open>IndexError\<close> when it is empty; a
  \<open>dict\<close> has no key \<open>0\<close>; the other values are not subscriptable.\<close>

fun subscript_0 :: "json \<Rightarrow> error + json" where
  "subscript_0 (JList []) = Inl IndexError"
| "subscript_0 (JList (x # xs)) = Inr x"
| "subscript_0 (JStr []) = Inl IndexError"
| "subscript_0 (JStr (c # cs)) = Inr (JStr [c])"
| "subscript_0 (JObj kvs) = Inl KeyError"
| "subscript_0 j = Inl TypeError"

text \<open>\<open>for x in v\<close>: a list gives its elements, a \<open>dict\<close> its keys, a string its
  characters; the other values are not iterable.\<close>

fun iterate :: "json \<Rightarrow> error + json list" where
  "iterate (JList xs) = Inr xs"
| "iterate (JObj kvs) = Inr (map (\<lambda>kv. JStr (fst kv)) kvs)"
| "iterate (JStr s) = Inr (map (\<lambda>c. JStr [c]) s)"
| "iterate j = Inl TypeError"

text \<open>A list comprehension \<open>[f(x) for x in xs]\<close> over a function that can raise: the first
  exception ends it.\<close>

fun map_result :: "('a \<Rightarrow> error + 'b) \<Rightarrow> 'a list \<Rightarrow> error + 'b list" where
  "map_result f [] = Inr []"
| "map_result f (x # xs) =
     (case f x of
        Inl e \<Rightarrow> Inl e
      | Inr y \<Rightarrow> (case map_result f xs of Inl e \<Rightarrow> Inl e | Inr ys \<Rightarrow> Inr (y # ys)))"

section \<open>Validation of the typed records\<close>

text \<open>How one JSON value is validated against a scalar field type is the validation
  library's rule; it is a parameter here, one validator per type, \<open>None\<close> when the value is
  rejected.\<close>

record validators =
  v_str :: "json \<Rightarrow> string option"
  v_int :: "json \<Rightarrow> int option"
  v_bool :: "json \<Rightarrow> bool option"
  v_uuid :: "json \<Rightarrow> uuid option"
  v_datetime :: "json \<Rightarrow> datetime option"

text \<open>A required field \<open>x: T\<close>: the key must be there and its value must validate.\<close>

definition required :: "(json \<Rightarrow> 'a option) \<Rightarrow> dict \<Rightarrow> string \<Rightarrow> 'a option" where
  "required v kvs k = (case map_of kvs k of None \<Rightarrow> None | Some j \<Rightarrow> v j)"

text \<open>An optional field \<open>x: Optional[T] = None\<close>: an absent key gives the default \<open>None\<close>, the
  value \<open>None\<close> is accepted, every other value must validate.\<close>

definition optional :: "(json \<Rightarrow> 'a option) \<Rightarrow> dict \<Rightarrow> string \<Rightarrow> 'a option option" where
  "optional v kvs k =
     (case map_of kvs k of
        None \<Rightarrow> Some None
      | Some JNull \<Rightarrow> Some None
      | Some j \<Rightarrow> map_option Some (v j))"

fun validated :: "'a option \<Rightarrow> error + 'a" where
  "validated None = Inl ValidationError"
| "validated (Some x) = Inr x"

text \<open>The constructors \<open>Model(**kvs)\<close> and so on: only the declared fields are read, so keys
  that are not fields are ignored.\<close>

definition Model_init :: "validators \<Rightarrow> dict \<Rightarrow> error + Model" where
  "Model_init vs kvs = validated (do {
     dt \<leftarrow> required (v_str vs) kvs ''deviceType'';
     ma \<leftarrow> optional (v_str vs) kvs ''manufacturer'';
     mn \<leftarrow> optional (v_str vs) kvs ''modelNumber'';
     hv \<leftarrow> optional (v_str vs) kvs ''hardwareVersion'';
     de \<leftarrow> optional (v_str vs) kvs ''description'';
     Some \<lparr>deviceType = dt, manufacturer = ma, modelNumber = mn, hardwareVersion = hv,
            description = de\<rparr> })"

definition Unit_init :: "validators \<Rightarrow> dict \<Rightarrow> error + Unit" where
  "Unit_init vs kvs = validated (do {
     sn \<leftarrow> optional (v_str vs) kvs ''serialNumber'';
     fv \<leftarrow> optional (v_str vs) kvs ''firmwareVersion'';
     fd \<leftarrow> optional (v_datetime vs) kvs ''firmwareDate'';
     Some \<lparr>serialNumber = sn, firmwareVersion = fv, firmwareDate = fd\<rparr> })"

definition Interface_init :: "validators \<Rightarrow> dict \<Rightarrow> error + Interface" where
  "Interface_init vs kvs = validated (do {
     ma \<leftarrow> required (v_str vs) kvs ''macAddress'';
     ty \<leftarrow> required (v_str vs) kvs ''interfaceType'';
     ba \<leftarrow> optional (v_str vs) kvs ''band'';
     Some \<lparr>macAddress = ma, interfaceType = ty, band = ba\<rparr> })"

definition Connection_init :: "validators \<Rightarrow> dict \<Rightarrow> error + Connection" where
  "Connection_init vs kvs = validated (do {
     ma \<leftarrow> required (v_str vs) kvs ''macAddress'';
     ip \<leftarrow> optional (v_str vs) kvs ''ipAddress'';
     i6 \<leftarrow> optional (v_str vs) kvs ''ipv6Address'';
     pa \<leftarrow> optional (v_uuid vs) kvs ''parentDeviceID'';
     Some \<lparr>conn_macAddress = ma, ipAddress = ip, ipv6Address = i6, parentDeviceID = pa\<rparr> })"

definition Property_init :: "validators \<Rightarrow> dict \<Rightarrow> error + Property" where
  "Property_init vs kvs = validated (do {
     na \<leftarrow> required (v_str vs) kvs ''name'';
     va \<leftarrow> required (v_str vs) kvs ''value'';
     Some \<lparr>prop_name = na, prop_value = va\<rparr> })"

text \<open>\<open>Device(**device_data)\<close>, where \<open>device_data\<close> is the device's \<open>dict\<close> with the five
  nested values replaced by the records already built from them: the scalar fields are
  read from the \<open>dict\<close>, the nested records are taken as they are.\<close>

definition Device_init ::
  "validators \<Rightarrow> dict \<Rightarrow> Model \<Rightarrow> Unit \<Rightarrow> Interface list \<Rightarrow> Connection list \<Rightarrow> Property list
     \<Rightarrow> error + Device" where
  "Device_init vs kvs m u ifs conns props = validated (do {
     di \<leftarrow> required (v_uuid vs) kvs ''deviceID'';
     lr \<leftarrow> required (v_int vs) kvs ''lastChangeRevision'';
     ia \<leftarrow> required (v_bool vs) kvs ''isAuthority'';
     nt \<leftarrow> optional (v_str vs) kvs ''nodeType'';
     fn \<leftarrow> optional (v_str vs) kvs ''friendlyName'';
     mp \<leftarrow> required (v_int vs) kvs ''maxAllowedProperties'';
     Some \<lparr>deviceID = di, lastChangeRevision = lr, model = m, unit = u, isAuthority = ia,
            nodeType = nt, friendlyName = fn, knownInterfaces = ifs, connections = conns,
            properties = props, maxAllowedProperties = mp\<rparr> })"

text \<open>\<open>C(**j)\<close>: unpacking anything but a \<open>dict\<close> raises \<open>TypeError\<close>.\<close>

fun construct :: "(dict \<Rightarrow> error + 'a) \<Rightarrow> json \<Rightarrow> error + 'a" where
  "construct init (JObj kvs) = init kvs"
| "construct init j = Inl TypeError"

text \<open>\<open>[C(**x) for x in device[k]]\<close>.\<close>

definition construct_all :: "(dict \<Rightarrow> error + 'a) \<Rightarrow> json \<Rightarrow> string \<Rightarrow> error + 'a list" where
  "construct_all init dev k =
     (case subscript_key dev k of
        Inl e \<Rightarrow> Inl e
      | Inr j \<Rightarrow> (case iterate j of
                   Inl e \<Rightarrow> Inl e
                 | Inr xs \<Rightarrow> map_result (construct init) xs))"

definition construct_one :: "(dict \<Rightarrow> error + 'a) \<Rightarrow> json \<Rightarrow> string \<Rightarrow> error + 'a" where
  "construct_one init dev k =
     (case subscript_key dev k of Inl e \<Rightarrow> Inl e | Inr j \<Rightarrow> construct init j)"

text \<open>\<open>parse_device\<close>: \<open>device.copy()\<close> and \<open>device_data.update\<close> need a \<open>dict\<close>; of the
  other values a list has \<open>copy\<close> but no \<open>update\<close>, the rest have no \<open>copy\<close>, so each raises
  \<open>AttributeError\<close>. The five nested values are built in the order of the \<open>dict\<close> display,
  then the device.\<close>

fun parse_device :: "validators \<Rightarrow> json \<Rightarrow> error + Device" where
  "parse_device vs (JObj kvs) =
     (case construct_one (Model_init vs) (JObj kvs) ''model'' of Inl e \<Rightarrow> Inl e | Inr m \<Rightarrow>
      case construct_one (Unit_init vs) (JObj kvs) ''unit'' of Inl e \<Rightarrow> Inl e | Inr u \<Rightarrow>
      case construct_all (Interface_init vs) (JObj kvs) ''knownInterfaces'' of Inl e \<Rightarrow> Inl e | Inr ifs \<Rightarrow>
      case construct_all (Connection_init vs) (JObj kvs) ''connections'' of Inl e \<Rightarrow> Inl e | Inr conns \<Rightarrow>
      case construct_all (Property_init vs) (JObj kvs) ''properties'' of Inl e \<Rightarrow> Inl e | Inr props \<Rightarrow>
      Device_init vs kvs m u ifs conns props)"
| "parse_device vs j = Inl AttributeError"

text \<open>The list comprehension of \<open>get_devices\<close> over the device array, and \<open>get_devices\<close> on
  the response of the router.\<close>

definition parse_devices :: "validators \<Rightarrow> json \<Rightarrow> error + Device list" where
  "parse_devices vs devs =
     (case iterate devs of Inl e \<Rightarrow> Inl e | Inr ds \<Rightarrow> map_result (parse_device vs) ds)"

definition get_devices :: "validators \<Rightarrow> json \<Rightarrow> error + Device list" where
  "get_devices vs response =
     (case subscript_key response ''responses'' of Inl e \<Rightarrow> Inl e | Inr rs \<Rightarrow>
      case subscript_0 rs of Inl e \<Rightarrow> Inl e | Inr r \<Rightarrow>
      case subscript_key r ''output'' of Inl e \<Rightarrow> Inl e | Inr out \<Rightarrow>
      case subscript_key out ''devices'' of Inl e \<Rightarrow> Inl e | Inr devs \<Rightarrow>
      parse_devices vs devs)"


section \<open>The words of the specification about parsing\<close>

text \<open>A required field is absent or of the wrong type: its key is missing, or the
  validator of its type rejects its value.\<close>

definition field_bad :: "(json \<Rightarrow> 'a option) \<Rightarrow> dict \<Rightarrow> string \<Rightarrow> bool" where
  "field_bad v kvs k = (case map_of kvs k of None \<Rightarrow> True | Some j \<Rightarrow> Option.is_none (v j))"

text \<open>A field of the nested object under key \<open>k\<close> is bad; when there is no object under
  \<open>k\<close>, its fields are absent.\<close>

definition nested_bad :: "dict \<Rightarrow> string \<Rightarrow> (dict \<Rightarrow> bool) \<Rightarrow> bool" where
  "nested_bad dev k P = (case map_of dev k of Some (JObj kvs) \<Rightarrow> P kvs | _ \<Rightarrow> True)"

fun element_bad :: "(dict \<Rightarrow> bool) \<Rightarrow> json \<Rightarrow> bool" where
  "element_bad P (JObj kvs) = P kvs"
| "element_bad P j = True"

text \<open>Some element of the array under key \<open>k\<close> has a bad field.\<close>

definition elements_bad :: "dict \<Rightarrow> string \<Rightarrow> (dict \<Rightarrow> bool) \<Rightarrow> bool" where
  "elements_bad dev k P =
     (case map_of dev k of Some (JList xs) \<Rightarrow> list_ex (element_bad P) xs | _ \<Rightarrow> False)"

definition required_field_bad :: "validators \<Rightarrow> dict \<Rightarrow> bool" where
  "required_field_bad vs dev =
     (field_bad (v_uuid vs) dev ''deviceID''
      \<or> field_bad (v_int vs) dev ''lastChangeRevision''
      \<or> nested_bad dev ''model'' (\<lambda>kvs. field_bad (v_str vs) kvs ''deviceType'')
      \<or> field_bad (v_bool vs) dev ''isAuthority''
      \<or> field_bad (v_int vs) dev ''maxAllowedProperties''
      \<or> elements_bad dev ''knownInterfaces''
           (\<lambda>kvs. field_bad (v_str vs) kvs ''macAddress'' \<or> field_bad (v_str vs) kvs ''interfaceType'')
      \<or> elements_bad dev ''connections'' (\<lambda>kvs. field_bad (v_str vs) kvs ''macAddress'')
      \<or> elements_bad dev ''properties''
           (\<lambda>kvs. field_bad (v_str vs) kvs ''name'' \<or> field_bad (v_str vs) kvs ''value''))"

text \<open>A required field is absent or of a wrong type that no coercion mends: its key is
  missing, or its value is \<open>None\<close>, a list or a \<open>dict\<close>, where every required field is of
  a scalar type (\<open>UUID\<close>, \<open>int\<close>, \<open>str\<close>, \<open>bool\<close>).\<close>

fun non_scalar :: "json \<Rightarrow> bool" where
  "non_scalar JNull = True"
| "non_scalar (JList xs) = True"
| "non_scalar (JObj kvs) = True"
| "non_scalar j = False"

definition field_wrong :: "dict \<Rightarrow> string \<Rightarrow> bool" where
  "field_wrong kvs k = (case map_of kvs k of None \<Rightarrow> True | Some j \<Rightarrow> non_scalar j)"

definition required_field_wrong :: "dict \<Rightarrow> bool" where
  "required_field_wrong dev =
     (field_wrong dev ''deviceID''
      \<or> field_wrong dev ''lastChangeRevision''
      \<or> nested_bad dev ''model'' (\<lambda>kvs. field_wrong kvs ''deviceType'')
      \<or> field_wrong dev ''isAuthority''
      \<or> field_wrong dev ''maxAllowedProperties''
      \<or> elements_bad dev ''knownInterfaces''
           (\<lambda>kvs. field_wrong kvs ''macAddress'' \<or> field_wrong kvs ''interfaceType'')
      \<or> elements_bad dev ''connections'' (\<lambda>kvs. field_wrong kvs ''macAddress'')
      \<or> elements_bad dev ''properties''
           (\<lambda>kvs. field_wrong kvs ''name'' \<or> field_wrong kvs ''value''))"

text \<open>What is taken of the validation library for such values: the validators of the
  four scalar types reject \<open>None\<close>, a list and a \<open>dict\<close>.\<close>

definition rejects_non_scalars :: "validators \<Rightarrow> bool" where
  "rejects_non_scalars vs =
     (\<forall>j. non_scalar j \<longrightarrow>
        v_uuid vs j = None \<and> v_int vs j = None \<and> v_str vs j = None \<and> v_bool vs j = None)"

text \<open>The record has the shape of a device: an object under \<open>model\<close> and under \<open>unit\<close>, an
  array of objects under \<open>knownInterfaces\<close>, \<open>connections\<close> and \<open>properties\<close>.\<close>

fun is_object :: "json \<Rightarrow> bool" where
  "is_object (JObj kvs) = True"
| "is_object j = False"

fun is_object_list :: "json \<Rightarrow> bool" where
  "is_object_list (JList xs) = list_all is_object xs"
| "is_object_list j = False"

definition has :: "dict \<Rightarrow> string \<Rightarrow> (json \<Rightarrow> bool) \<Rightarrow> bool" where
  "has dev k P = (case map_of dev k of None \<Rightarrow> False | Some j \<Rightarrow> P j)"

definition well_shaped :: "dict \<Rightarrow> bool" where
  "well_shaped dev =
     (has dev ''model'' is_object \<and> has dev ''unit'' is_object
      \<and> has dev ''knownInterfaces'' is_object_list
      \<and> has dev ''connections'' is_object_list
      \<and> has dev ''properties'' is_object_list)"

text \<open>The record supplies all required fields.\<close>

definition supplies_required :: "validators \<Rightarrow> dict \<Rightarrow> bool" where
  "supplies_required vs dev = (well_shaped dev \<and> \<not> required_field_bad vs dev)"

text \<open>The record omits every optional field, at the top and in each nested object.\<close>

definition absent :: "string list \<Rightarrow> dict \<Rightarrow> bool" where
  "absent ks kvs = list_all (\<lambda>k. map_of kvs k = None) ks"

fun object_omits :: "string list \<Rightarrow> json \<Rightarrow> bool" where
  "object_omits ks (JObj kvs) = absent ks kvs"
| "object_omits ks j = True"

fun objects_omit :: "string list \<Rightarrow> json \<Rightarrow> bool" where
  "objects_omit ks (JList xs) = list_all (object_omits ks) xs"
| "objects_omit ks j = True"

definition omits_optional :: "dict \<Rightarrow> bool" where
  "omits_optional dev =
     (absent [''nodeType'', ''friendlyName''] dev
      \<and> has dev ''model''
           (object_omits [''manufacturer'', ''modelNumber'', ''hardwareVersion'', ''description''])
      \<and> has dev ''unit'' (object_omits [''serialNumber'', ''firmwareVersion'', ''firmwareDate''])
      \<and> has dev ''knownInterfaces'' (objects_omit [''band''])
      \<and> has dev ''connections'' (objects_omit [''ipAddress'', ''ipv6Address'', ''parentDeviceID'']))"

text \<open>The record without its unknown fields: at the top and in each nested object only
  the keys that are fields of the record type are kept.\<close>

definition known_only :: "string list \<Rightarrow> dict \<Rightarrow> dict" where
  "known_only ks kvs = filter (\<lambda>kv. fst kv \<in> set ks) kvs"

fun strip_object :: "string list \<Rightarrow> json \<Rightarrow> json" where
  "strip_object ks (JObj kvs) = JObj (known_only ks kvs)"
| "strip_object ks j = j"

fun strip_objects :: "string list \<Rightarrow> json \<Rightarrow> json" where
  "strip_objects ks (JList xs) = JList (map (strip_object ks) xs)"
| "strip_objects ks j = j"

text \<open>The field names of each record type.\<close>

definition Model_fields :: "string list" where
  "Model_fields = [''deviceType'', ''manufacturer'', ''modelNumber'', ''hardwareVersion'',
     ''description'']"

definition Unit_fields :: "string list" where
  "Unit_fields = [''serialNumber'', ''firmwareVersion'', ''firmwareDate'']"

definition Interface_fields :: "string list" where
  "Interface_fields = [''macAddress'', ''interfaceType'', ''band'']"

definition Connection_fields :: "string list" where
  "Connection_fields = [''macAddress'', ''ipAddress'', ''ipv6Address'', ''parentDeviceID'']"

definition Property_fields :: "string list" where
  "Property_fields = [''name'', ''value'']"

definition Device_fields :: "string list" where
  "Device_fields = [''deviceID'', ''lastChangeRevision'', ''model'', ''unit'', ''isAuthority'',
     ''nodeType'', ''friendlyName'', ''knownInterfaces'', ''connections'', ''properties'',
     ''maxAllowedProperties'']"

definition strip_nested :: "string \<Rightarrow> json \<Rightarrow> json" where
  "strip_nested k j =
     (if k = ''model'' then strip_object Model_fields j
      else if k = ''unit'' then strip_object Unit_fields j
      else if k = ''knownInterfaces'' then strip_objects Interface_fields j
      else if k = ''connections'' then strip_objects Connection_fields j
      else if k = ''properties'' then strip_objects Property_fields j
      else j)"

definition strip_unknown :: "dict \<Rightarrow> dict" where
  "strip_unknown dev =
     map (\<lambda>kv. (fst kv, strip_nested (fst kv) (snd kv))) (known_only Device_fields dev)"

text \<open>A response of the router that carries the device array \<open>devs\<close>.\<close>

definition response_of :: "json \<Rightarrow> json" where
  "response_of devs = JObj [(''responses'', JList [JObj [(''output'', JObj [(''devices'', devs)])]])]"

section \<open>Example records\<close>

text \<open>One instance of the validators, for the examples, after the default mode of the
  validation library, which coerces some values of another type:
  \<^item> a \<open>str\<close> field takes a string only;
  \<^item> an \<open>int\<close> field takes an \<open>int\<close>, a \<open>bool\<close>, a \<open>float\<close> without fractional part, and a
    string of decimal digits with an optional sign;
  \<^item> a \<open>bool\<close> field takes a \<open>bool\<close>, the numbers 0 and 1, and the strings \<open>0\<close>, \<open>off\<close>, \<open>f\<close>,
    \<open>false\<close>, \<open>n\<close>, \<open>no\<close>, \<open>1\<close>, \<open>on\<close>, \<open>t\<close>, \<open>true\<close>, \<open>y\<close>, \<open>yes\<close> in any case;
  \<^item> a \<open>UUID\<close> field takes the text of 32 hexadecimal digits, plain or hyphenated as
    8-4-4-4-12;
  \<^item> no value is read as a \<open>datetime\<close>: the examples have none.
  The library takes further texts for \<open>int\<close>, \<open>UUID\<close> and \<open>datetime\<close>; the examples use none of
  them.\<close>

definition digit_value :: "char \<Rightarrow> nat option" where
  "digit_value c = map_of (zip ''0123456789'' [0, 1, 2, 3, 4, 5, 6, 7, 8, 9]) c"

definition nat_of_digits :: "string \<Rightarrow> int option" where
  "nat_of_digits s =
     (if s \<noteq> [] \<and> list_all (\<lambda>c. \<not> Option.is_none (digit_value c)) s
      then Some (foldl (\<lambda>n c. n * 10 + int (case digit_value c of Some d \<Rightarrow> d | None \<Rightarrow> 0)) 0 s)
      else None)"

fun int_of_string :: "string \<Rightarrow> int option" where
  "int_of_string [] = None"
| "int_of_string (c # cs) =
     (if c = CHR ''-'' then map_option uminus (nat_of_digits cs)
      else if c = CHR ''+'' then nat_of_digits cs
      else nat_of_digits (c # cs))"

text \<open>The integer a \<open>float\<close> of mantissa \<open>m\<close> and binary exponent \<open>e\<close> is equal to, if any.\<close>

definition int_of_float :: "int \<Rightarrow> int \<Rightarrow> int option" where
  "int_of_float m e =
     (if 0 \<le> e then Some (m * 2 ^ nat e)
      else if m mod 2 ^ nat (- e) = 0 then Some (m div 2 ^ nat (- e))
      else None)"

definition bool_of_int :: "int option \<Rightarrow> bool option" where
  "bool_of_int n = (if n = Some 0 then Some False else if n = Some 1 then Some True else None)"

definition bool_of_string :: "string \<Rightarrow> bool option" where
  "bool_of_string s =
     (if str_lower s \<in> set [''0'', ''off'', ''f'', ''false'', ''n'', ''no''] then Some False
      else if str_lower s \<in> set [''1'', ''on'', ''t'', ''true'', ''y'', ''yes''] then Some True
      else None)"

definition hex_digit :: "char \<Rightarrow> nat option" where
  "hex_digit c =
     map_of (zip ''0123456789abcdefABCDEF''
       [0, 1, 2, 3, 4, 5, 6, 7, 8, 9, 10, 11, 12, 13, 14, 15, 10, 11, 12, 13, 14, 15]) c"

definition uuid_of_hex :: "string \<Rightarrow> uuid option" where
  "uuid_of_hex hs =
     (if length hs = 32 \<and> list_all (\<lambda>c. \<not> Option.is_none (hex_digit c)) hs
      then Some (UUID (foldl (\<lambda>w c. w * 16 + of_nat (case hex_digit c of Some n \<Rightarrow> n | None \<Rightarrow> 0))
                   0 hs))
      else None)"

definition uuid_of_string :: "string \<Rightarrow> uuid option" where
  "uuid_of_string s =
     (if length s = 36
      then (if [s ! 8, s ! 13, s ! 18, s ! 23] = ''----''
            then uuid_of_hex (filter (\<lambda>c. c \<noteq> CHR ''-'') s)
            else None)
      else uuid_of_hex s)"

fun lax_str :: "json \<Rightarrow> string option" where
  "lax_str (JStr s) = Some s"
| "lax_str j = None"

fun lax_int :: "json \<Rightarrow> int option" where
  "lax_int (JInt n) = Some n"
| "lax_int (JBool b) = Some (if b then 1 else 0)"
| "lax_int (JFloat m e) = int_of_float m e"
| "lax_int (JStr s) = int_of_string s"
| "lax_int j = None"

fun lax_bool :: "json \<Rightarrow> bool option" where
  "lax_bool (JBool b) = Some b"
| "lax_bool (JInt n) = bool_of_int (Some n)"
| "lax_bool (JFloat m e) = bool_of_int (int_of_float m e)"
| "lax_bool (JStr s) = bool_of_string s"
| "lax_bool j = None"

fun lax_uuid :: "json \<Rightarrow> uuid option" where
  "lax_uuid (JStr s) = uuid_of_string s"
| "lax_uuid j = None"

definition lax_validators :: validators where
  "lax_validators =
     \<lparr>v_str = lax_str, v_int = lax_int, v_bool = lax_bool, v_uuid = lax_uuid,
      v_datetime = (\<lambda>j. None)\<rparr>"

definition tv_interface_json :: json where
  "tv_interface_json =
     JObj [(''macAddress'', JStr ''AA:BB:CC:DD:EE:FF''), (''interfaceType'', JStr ''Wireless'')]"

definition minimal_json :: dict where
  "minimal_json =
     [(''deviceID'', JStr ''00000000-0000-0000-0000-000000000001''),
      (''lastChangeRevision'', JInt 1),
      (''model'', JObj [(''deviceType'', JStr ''Computer'')]),
      (''unit'', JObj []),
      (''isAuthority'', JBool False),
      (''knownInterfaces'', JList [tv_interface_json]),
      (''connections'', JList []),
      (''properties'', JList []),
      (''maxAllowedProperties'', JInt 16)]"

text \<open>The minimal record with an unknown field added at the top and in each nested
  object.\<close>

definition extended_json :: dict where
  "extended_json =
     [(''deviceID'', JStr ''00000000-0000-0000-0000-000000000001''),
      (''lastChangeRevision'', JInt 1),
      (''model'', JObj [(''deviceType'', JStr ''Computer''), (''colour'', JStr ''black'')]),
      (''unit'', JObj [(''weight'', JInt 3)]),
      (''isAuthority'', JBool False),
      (''knownInterfaces'',
         JList [JObj [(''macAddress'', JStr ''AA:BB:CC:DD:EE:FF''),
                      (''interfaceType'', JStr ''Wireless''), (''mtu'', JInt 1500)]]),
      (''connections'', JList []),
      (''properties'', JList []),
      (''maxAllowedProperties'', JInt 16),
      (''firmwareChannel'', JStr ''beta'')]"

text \<open>A record without \<open>deviceID\<close> and without the \<open>model\<close> key, and the minimal record with
  its \<open>deviceID\<close> removed.\<close>

definition no_model_json :: dict where
  "no_model_json =
     [(''lastChangeRevision'', JInt 1),
      (''unit'', JObj []),
      (''isAuthority'', JBool False),
      (''knownInterfaces'', JList [tv_interface_json]),
      (''connections'', JList []),
      (''properties'', JList []),
      (''maxAllowedProperties'', JInt 16)]"

definition no_id_json :: dict where
  "no_id_json = tl minimal_json"

text \<open>The minimal record with \<open>None\<close> for its \<open>lastChangeRevision\<close>; and the minimal record
  with the string \<open>1\<close> for the \<open>int\<close> field \<open>lastChangeRevision\<close> and the number 0 for the
  \<open>bool\<close> field \<open>isAuthority\<close>.\<close>

definition null_revision_json :: dict where
  "null_revision_json =
     [(''deviceID'', JStr ''00000000-0000-0000-0000-000000000001''),
      (''lastChangeRevision'', JNull),
      (''model'', JObj [(''deviceType'', JStr ''Computer'')]),
      (''unit'', JObj []),
      (''isAuthority'', JBool False),
      (''knownInterfaces'', JList [tv_interface_json]),
      (''connections'', JList []),
      (''properties'', JList []),
      (''maxAllowedProperties'', JInt 16)]"

definition coerced_json :: dict where
  "coerced_json =
     [(''deviceID'', JStr ''00000000-0000-0000-0000-000000000001''),
      (''lastChangeRevision'', JStr ''1''),
      (''model'', JObj [(''deviceType'', JStr ''Computer'')]),
      (''unit'', JObj []),
      (''isAuthority'', JInt 0),
      (''knownInterfaces'', JList [tv_interface_json]),
      (''connections'', JList []),
      (''properties'', JList []),
      (''maxAllowedProperties'', JInt 16)]"

section \<open>Helper lemmas\<close>

lemmas example_defs =
  living_room_tv_def lowercase_tv_def unlabelled_device_def bare_device_def
  plain_device_def tv_interface_def

lemmas filter_defs = filter_devices_def filter_mac_def filter_friendly_def

lemma str_contains_sublist: "str_contains hay needle \<longleftrightarrow> sublist needle hay"
  by (induction hay) (simp_all add: sublist_Cons_right)

lemma filter_friendly_is_filter:
  "\<exists>P. \<forall>ds. filter_friendly n ds = filter P ds"
proof (cases "truthy n")
  case True
  then show ?thesis unfolding filter_friendly_def by auto
next
  case False
  then have "\<forall>ds. filter_friendly n ds = filter (\<lambda>d. True) ds"
    by (simp add: filter_friendly_def)
  then show ?thesis by blast
qed

lemma filter_mac_is_filter:
  "\<exists>P. \<forall>ds. filter_mac m ds = filter P ds"
proof (cases "truthy m")
  case True
  then show ?thesis unfolding filter_mac_def Let_def by auto
next
  case False
  then have "\<forall>ds. filter_mac m ds = filter (\<lambda>d. True) ds"
    by (simp add: filter_mac_def)
  then show ?thesis by blast
qed

lemma filter_mac_friendly_commute:
  "filter_mac m (filter_friendly n ds) = filter_friendly n (filter_mac m ds)"
  by (auto simp: filter_mac_def filter_friendly_def Let_def intro: filter_cong)

lemma filter_friendly_None [simp]: "filter_friendly None ds = ds"
  by (simp add: filter_friendly_def)

lemma filter_mac_None [simp]: "filter_mac None ds = ds"
  by (simp add: filter_mac_def)

lemma labelled_filter_commute:
  "filter_devices (labelled_devices inventory) n m = labelled_devices (filter_devices inventory n m)"
proof -
  obtain P where P: "\<And>xs. filter_friendly n xs = filter P xs"
    using filter_friendly_is_filter by blast
  obtain Q where Q: "\<And>xs. filter_mac m xs = filter Q xs"
    using filter_mac_is_filter by blast
  show ?thesis
    unfolding filter_devices_def labelled_devices_def P Q
    by (auto intro: filter_cong)
qed

lemma selected_subset: "set (selected_devices args inventory) \<subseteq> set (labelled_devices inventory)"
proof -
  obtain P where P: "\<And>xs. filter_friendly (friendly args) xs = filter P xs"
    using filter_friendly_is_filter by blast
  obtain Q where Q: "\<And>xs. filter_mac (mac args) xs = filter Q xs"
    using filter_mac_is_filter by blast
  show ?thesis
    unfolding selected_devices_def filter_devices_def P Q by auto
qed

lemma device_of_status [simp]: "device (get_device_status d S) = d"
  by (simp add: get_device_status_def Let_def)

lemma printed_devices_selected:
  assumes "Print_online l \<in> set (main args inventory S) \<or> Print_offline l \<in> set (main args inventory S)"
    and "s \<in> set l"
  shows "device s \<in> set (selected_devices args inventory)"
proof -
  from assms(1) have "l = online_of (device_statuses (selected_devices args inventory) S)
      \<or> l = offline_of (device_statuses (selected_devices args inventory) S)"
    by (auto simp: main_def Let_def split: if_splits)
  with assms(2) have "s \<in> set (device_statuses (selected_devices args inventory) S)"
    by (auto simp: online_of_def offline_of_def)
  then show ?thesis
    by (auto simp: device_statuses_def)
qed

section \<open>Reconciliation\<close>

text \<open>
  C1. For every device \<open>d\<close> and every set \<open>S\<close> of online MAC addresses, \<open>get_device_status\<close>
  returns a status whose \<open>online_interfaces\<close> are exactly the known interfaces of \<open>d\<close> whose
  MAC address is in \<open>S\<close> (in their order), whose \<open>is_online\<close> holds exactly when there is
  such an interface, and whose device is \<open>d\<close>; a device with no known interface is offline.
  The result is a function of \<open>d\<close> and \<open>S\<close> alone.
\<close>

theorem get_device_status_reconciles:
  "online_interfaces (get_device_status d S) = filter (\<lambda>i. macAddress i \<in> S) (knownInterfaces d)
   \<and> set (online_interfaces (get_device_status d S)) = {i \<in> set (knownInterfaces d). macAddress i \<in> S}
   \<and> is_online (get_device_status d S) = (\<exists>i \<in> set (knownInterfaces d). macAddress i \<in> S)
   \<and> is_online (get_device_status d S) = (online_interfaces (get_device_status d S) \<noteq> [])
   \<and> (knownInterfaces d = [] \<longrightarrow> \<not> is_online (get_device_status d S))
   \<and> device (get_device_status d S) = d"
  by (auto simp: get_device_status_def Let_def filter_empty_conv)

theorem get_device_status_reconciles_witness:
  "is_online (get_device_status living_room_tv {''AA:BB:CC:DD:EE:FF''})
   \<and> online_interfaces (get_device_status living_room_tv {''AA:BB:CC:DD:EE:FF''}) = [tv_interface]
   \<and> \<not> is_online (get_device_status living_room_tv {})
   \<and> knownInterfaces bare_device = []
   \<and> \<not> is_online (get_device_status bare_device {''AA:BB:CC:DD:EE:FF''})"
  using get_device_status_reconciles [of living_room_tv "{''AA:BB:CC:DD:EE:FF''}"]
    get_device_status_reconciles [of living_room_tv "{}"]
    get_device_status_reconciles [of bare_device "{''AA:BB:CC:DD:EE:FF''}"]
  by (simp add: example_defs)

section \<open>The inventory rule\<close>

text \<open>
  C2. The inventory rule of \<open>main\<close> removes exactly the devices whose friendly name has
  length 36 and contains a hyphen, keeping the others in their order; a device without a
  friendly name is never removed. The rule runs before the filters: the devices \<open>main\<close>
  goes on with are the filtered survivors of the rule, the rule commutes with the filters,
  and whatever the flags, every status printed is of a surviving device.
\<close>

theorem inventory_rule_exact:
  "labelled_devices inventory =
     filter (\<lambda>d. \<not> (\<exists>n. friendlyName d = Some n \<and> length n = 36 \<and> CHR ''-'' \<in> set n)) inventory
   \<and> (friendlyName d = None \<longrightarrow> d \<in> set inventory \<longrightarrow> d \<in> set (labelled_devices inventory))
   \<and> selected_devices args inventory = labelled_devices (filter_devices inventory (friendly args) (mac args))
   \<and> set (selected_devices args inventory) \<subseteq> set (labelled_devices inventory)
   \<and> ((Print_online l \<in> set (main args inventory S) \<or> Print_offline l \<in> set (main args inventory S))
        \<longrightarrow> s \<in> set l \<longrightarrow> device s \<in> set (labelled_devices inventory))"
proof -
  have rule: "labelled_devices inventory =
     filter (\<lambda>d. \<not> (\<exists>n. friendlyName d = Some n \<and> length n = 36 \<and> CHR ''-'' \<in> set n)) inventory"
    unfolding labelled_devices_def
  proof (rule filter_cong [OF refl])
    fix d
    show "(\<not> uuid_named d) = (\<not> (\<exists>n. friendlyName d = Some n \<and> length n = 36 \<and> CHR ''-'' \<in> set n))"
      by (cases "friendlyName d") (simp_all add: uuid_named_def)
  qed
  have absent: "friendlyName d = None \<longrightarrow> d \<in> set inventory \<longrightarrow> d \<in> set (labelled_devices inventory)"
    by (simp add: labelled_devices_def uuid_named_def)
  have comm: "selected_devices args inventory = labelled_devices (filter_devices inventory (friendly args) (mac args))"
    by (simp add: selected_devices_def labelled_filter_commute)
  have printed: "(Print_online l \<in> set (main args inventory S) \<or> Print_offline l \<in> set (main args inventory S))
        \<longrightarrow> s \<in> set l \<longrightarrow> device s \<in> set (labelled_devices inventory)"
    using printed_devices_selected [of l args inventory S s] selected_subset [of args inventory] by blast
  from rule absent comm selected_subset [of args inventory] printed show ?thesis by blast
qed

theorem inventory_rule_exact_witness:
  "labelled_devices [living_room_tv, unlabelled_device, bare_device] = [living_room_tv, bare_device]
   \<and> friendlyName bare_device = None
   \<and> bare_device \<in> set (labelled_devices [living_room_tv, unlabelled_device, bare_device])
   \<and> Print_online [get_device_status living_room_tv {''AA:BB:CC:DD:EE:FF''}]
       \<in> set (main \<lparr>online = True, offline = False, friendly = None, mac = Some ''aa:bb:cc:dd:ee:ff''\<rparr>
                [living_room_tv, unlabelled_device, bare_device] {''AA:BB:CC:DD:EE:FF''})
   \<and> living_room_tv \<in> set (labelled_devices [living_room_tv, unlabelled_device, bare_device])"
  using inventory_rule_exact [of "[living_room_tv, unlabelled_device, bare_device]" bare_device
      "\<lparr>online = True, offline = False, friendly = None, mac = Some ''aa:bb:cc:dd:ee:ff''\<rparr>"
      "[get_device_status living_room_tv {''AA:BB:CC:DD:EE:FF''}]" "{''AA:BB:CC:DD:EE:FF''}"
      "get_device_status living_room_tv {''AA:BB:CC:DD:EE:FF''}"]
  by (simp add: example_defs main_def selected_devices_def filter_defs labelled_devices_def
      uuid_named_def device_statuses_def online_of_def offline_of_def get_device_status_def
      str_upper_def upper_char_def Let_def)

section \<open>Filtering\<close>

lemma filter_mac_truthy:
  "m \<noteq> [] \<Longrightarrow> filter_mac (Some m) ds =
     filter (\<lambda>d. \<exists>i\<in>set (knownInterfaces d). macAddress i = str_upper m) ds"
  by (simp add: filter_mac_def Let_def list_ex_iff)

text \<open>
  C3, as the code has it. For every device list and every non-empty ASCII MAC filter
  string \<open>m\<close>, filtering by MAC keeps a device if and only if one of its known interfaces
  has a MAC address equal to the uppercased \<open>m\<close>; the stored address is compared as it
  is. For a device whose stored addresses are ASCII and in upper case this is equality
  ignoring case. An empty filter string keeps every device. The lowercase input
  \<open>aa:bb:cc:dd:ee:ff\<close> matches the stored \<open>AA:BB:CC:DD:EE:FF\<close>.
\<close>

theorem mac_filter_exact:
  assumes "m \<noteq> []" and "is_ascii m"
  shows "filter_devices ds None (Some m) =
           filter (\<lambda>d. \<exists>i\<in>set (knownInterfaces d). macAddress i = str_upper m) ds
    \<and> (d \<in> set (filter_devices ds None (Some m)) \<longleftrightarrow>
          d \<in> set ds \<and> (\<exists>i\<in>set (knownInterfaces d). macAddress i = str_upper m))
    \<and> ((\<forall>i\<in>set (knownInterfaces d).
            is_ascii (macAddress i) \<and> str_upper (macAddress i) = macAddress i) \<longrightarrow>
          (d \<in> set (filter_devices ds None (Some m)) \<longleftrightarrow>
            d \<in> set ds \<and> (\<exists>i\<in>set (knownInterfaces d). equal_ignoring_case (macAddress i) m)))
    \<and> filter_devices ds None (Some []) = ds
    \<and> filter_devices [living_room_tv] None (Some ''aa:bb:cc:dd:ee:ff'') = [living_room_tv]"
proof -
  have eq: "filter_devices ds None (Some m) =
           filter (\<lambda>d. \<exists>i\<in>set (knownInterfaces d). macAddress i = str_upper m) ds"
    using assms(1) by (simp add: filter_devices_def filter_mac_truthy)
  have mem: "d \<in> set (filter_devices ds None (Some m)) \<longleftrightarrow>
          d \<in> set ds \<and> (\<exists>i\<in>set (knownInterfaces d). macAddress i = str_upper m)"
    unfolding eq by simp
  have upper: "(\<forall>i\<in>set (knownInterfaces d).
            is_ascii (macAddress i) \<and> str_upper (macAddress i) = macAddress i) \<longrightarrow>
          (d \<in> set (filter_devices ds None (Some m)) \<longleftrightarrow>
            d \<in> set ds \<and> (\<exists>i\<in>set (knownInterfaces d). equal_ignoring_case (macAddress i) m))"
    unfolding mem equal_ignoring_case_def by auto
  have empty: "filter_devices ds None (Some []) = ds"
    by (simp add: filter_defs)
  have tv: "filter_devices [living_room_tv] None (Some ''aa:bb:cc:dd:ee:ff'') = [living_room_tv]"
    by (simp add: filter_defs example_defs str_upper_def upper_char_def)
  from eq mem upper empty tv show ?thesis by blast
qed

theorem mac_filter_exact_witness:
  "''aa:bb:cc:dd:ee:ff'' \<noteq> [] \<and> is_ascii ''aa:bb:cc:dd:ee:ff''
   \<and> filter_devices [lowercase_tv, living_room_tv] None (Some ''aa:bb:cc:dd:ee:ff'') = [living_room_tv]
   \<and> is_ascii (macAddress tv_interface)
   \<and> str_upper (macAddress tv_interface) = macAddress tv_interface
   \<and> equal_ignoring_case (macAddress tv_interface) ''aa:bb:cc:dd:ee:ff''
   \<and> living_room_tv \<in> set (filter_devices [lowercase_tv, living_room_tv] None (Some ''aa:bb:cc:dd:ee:ff''))"
proof -
  have ne: "''aa:bb:cc:dd:ee:ff'' \<noteq> []" by simp
  have asc: "is_ascii ''aa:bb:cc:dd:ee:ff''" by (simp add: is_ascii_def)
  show ?thesis
    using mac_filter_exact [OF ne asc, of "[lowercase_tv, living_room_tv]" living_room_tv] asc
    by (simp add: example_defs str_upper_def upper_char_def equal_ignoring_case_def is_ascii_def)
qed

text \<open>
  C3, as the claim states it, fails on the code: a device whose stored interface MAC is
  the lowercase ASCII string \<open>aa:bb:cc:dd:ee:ff\<close> equals the filter string
  \<open>aa:bb:cc:dd:ee:ff\<close> ignoring case (it is the same string), yet the filter drops the
  device; and the empty filter string keeps a device with no interface at all.
\<close>

theorem mac_filter_ignoring_case_counterexample:
  "macAddress (hd (knownInterfaces lowercase_tv)) = ''aa:bb:cc:dd:ee:ff''
   \<and> is_ascii ''aa:bb:cc:dd:ee:ff''
   \<and> equal_ignoring_case (macAddress (hd (knownInterfaces lowercase_tv))) ''aa:bb:cc:dd:ee:ff''
   \<and> filter_devices [lowercase_tv] None (Some ''aa:bb:cc:dd:ee:ff'') = []
   \<and> knownInterfaces bare_device = []
   \<and> filter_devices [bare_device] None (Some []) = [bare_device]"
  by (simp add: filter_defs example_defs str_upper_def upper_char_def equal_ignoring_case_def
      is_ascii_def)

text \<open>
  C4. For every device list \<open>D\<close>, every friendly-name argument \<open>n\<close> and every MAC argument
  \<open>m\<close>, filtering by name and then by MAC gives the same list as filtering by MAC and then
  by name, and both give the list of the call with the two arguments together.
\<close>

theorem filter_devices_commute:
  "filter_devices (filter_devices D n None) None m = filter_devices (filter_devices D None m) n None
   \<and> filter_devices (filter_devices D n None) None m = filter_devices D n m"
  by (simp add: filter_devices_def filter_mac_friendly_commute)

text \<open>
  C9. For every device list and every pair of filter arguments, \<open>filter_devices\<close> returns a
  subsequence of its input: the devices it returns are devices of the input, in the
  input's order, none more often than in the input. When neither argument is given (or
  each is absent or empty) the input is returned unchanged.
\<close>

theorem filter_devices_subseq:
  "subseq (filter_devices ds n m) ds
   \<and> set (filter_devices ds n m) \<subseteq> set ds
   \<and> mset (filter_devices ds n m) \<subseteq># mset ds
   \<and> filter_devices ds None None = ds
   \<and> (\<not> truthy n \<and> \<not> truthy m \<longrightarrow> filter_devices ds n m = ds)"
proof -
  obtain P where P: "\<And>xs. filter_friendly n xs = filter P xs"
    using filter_friendly_is_filter by blast
  obtain Q where Q: "\<And>xs. filter_mac m xs = filter Q xs"
    using filter_mac_is_filter by blast
  have f: "filter_devices ds n m = filter (\<lambda>d. P d \<and> Q d) ds"
    by (simp add: filter_devices_def P Q)
  have 1: "subseq (filter_devices ds n m) ds"
    unfolding f by simp
  have 2: "set (filter_devices ds n m) \<subseteq> set ds"
    unfolding f by auto
  have 3: "mset (filter_devices ds n m) \<subseteq># mset ds"
    unfolding f by simp
  have 4: "filter_devices ds None None = ds"
    by (simp add: filter_devices_def)
  have 5: "\<not> truthy n \<and> \<not> truthy m \<longrightarrow> filter_devices ds n m = ds"
    by (simp add: filter_defs)
  from 1 2 3 4 5 show ?thesis by blast
qed

theorem filter_devices_subseq_witness:
  "subseq [living_room_tv] [bare_device, living_room_tv, lowercase_tv]
   \<and> filter_devices [bare_device, living_room_tv, lowercase_tv] (Some ''ROOM'') (Some ''aa:bb:cc:dd:ee:ff'')
       = [living_room_tv]
   \<and> \<not> truthy (Some []) \<and> \<not> truthy None
   \<and> filter_devices [bare_device, living_room_tv] (Some []) None = [bare_device, living_room_tv]"
proof -
  have ev: "filter_devices [bare_device, living_room_tv, lowercase_tv] (Some ''ROOM'') (Some ''aa:bb:cc:dd:ee:ff'')
       = [living_room_tv]"
    by (simp add: filter_defs example_defs str_upper_def upper_char_def str_lower_def lower_char_def)
  show ?thesis
    using filter_devices_subseq [of "[bare_device, living_room_tv, lowercase_tv]" "Some ''ROOM''"
        "Some ''aa:bb:cc:dd:ee:ff''"]
      filter_devices_subseq [of "[bare_device, living_room_tv]" "Some []" None]
    by (simp add: ev)
qed

section \<open>Sections and summary\<close>

lemma selected_devices_flags [simp]:
  "selected_devices (args\<lparr>online := x, offline := y\<rparr>) inventory = selected_devices args inventory"
  by (simp add: selected_devices_def)

text \<open>
  C5. With both \<open>--online\<close> and \<open>--offline\<close> set, \<open>main\<close> prints the two device sections it
  prints with neither flag set, the online section and then the offline section, and no
  summary line; the summary line is printed exactly when neither flag is set.
\<close>

theorem both_flags_like_neither:
  "main (args\<lparr>online := True, offline := True\<rparr>) inventory S =
     [Print_online (online_of (device_statuses (selected_devices args inventory) S)),
      Print_offline (offline_of (device_statuses (selected_devices args inventory) S))]
   \<and> sections (main (args\<lparr>online := True, offline := True\<rparr>) inventory S) =
       sections (main (args\<lparr>online := False, offline := False\<rparr>) inventory S)
   \<and> \<not> list_ex is_summary (main (args\<lparr>online := True, offline := True\<rparr>) inventory S)
   \<and> list_ex is_summary (main args inventory S) = (\<not> online args \<and> \<not> offline args)"
  by (simp add: main_def Let_def sections_def)

theorem both_flags_like_neither_witness:
  "main \<lparr>online = True, offline = True, friendly = None, mac = None\<rparr>
      [living_room_tv, unlabelled_device, bare_device] {''AA:BB:CC:DD:EE:FF''} =
     [Print_online [get_device_status living_room_tv {''AA:BB:CC:DD:EE:FF''}],
      Print_offline [get_device_status bare_device {''AA:BB:CC:DD:EE:FF''}]]
   \<and> main \<lparr>online = False, offline = False, friendly = None, mac = None\<rparr>
      [living_room_tv, unlabelled_device, bare_device] {''AA:BB:CC:DD:EE:FF''} =
     [Print_online [get_device_status living_room_tv {''AA:BB:CC:DD:EE:FF''}],
      Print_offline [get_device_status bare_device {''AA:BB:CC:DD:EE:FF''}],
      Print_summary [] 2 1 1]
   \<and> \<not> list_ex is_summary (main \<lparr>online = True, offline = False, friendly = None, mac = None\<rparr>
      [living_room_tv, unlabelled_device, bare_device] {''AA:BB:CC:DD:EE:FF''})"
  using both_flags_like_neither [of "\<lparr>online = True, offline = False, friendly = None, mac = None\<rparr>"
      "[living_room_tv, unlabelled_device, bare_device]" "{''AA:BB:CC:DD:EE:FF''}"]
  by (simp add: main_def Let_def selected_devices_def filter_devices_def labelled_devices_def
      uuid_named_def device_statuses_def online_of_def offline_of_def filter_msg_def
      get_device_status_def example_defs)

text \<open>
  C10. For every list of statuses, the online list and the offline list of \<open>main\<close> partition
  it: together they hold every status as often as the list does, no status is in both,
  every status of the list is in exactly one, and each is a subsequence of the list. The
  lists \<open>main\<close> prints are these two lists of the reconciled statuses of the filtered
  devices, and in the summary line the online count plus the offline count is the total,
  the number of filtered devices.
\<close>

theorem online_offline_partition:
  "mset (online_of sts) + mset (offline_of sts) = mset sts
   \<and> set (online_of sts) \<inter> set (offline_of sts) = {}
   \<and> (\<forall>s\<in>set sts. (s \<in> set (online_of sts)) \<noteq> (s \<in> set (offline_of sts)))
   \<and> subseq (online_of sts) sts \<and> subseq (offline_of sts) sts
   \<and> (Print_online l \<in> set (main args inventory S) \<longrightarrow>
        l = online_of (device_statuses (selected_devices args inventory) S))
   \<and> (Print_offline l \<in> set (main args inventory S) \<longrightarrow>
        l = offline_of (device_statuses (selected_devices args inventory) S))
   \<and> (Print_summary msg t a b \<in> set (main args inventory S) \<longrightarrow>
        a + b = t \<and> t = length (selected_devices args inventory)
        \<and> a = length (online_of (device_statuses (selected_devices args inventory) S))
        \<and> b = length (offline_of (device_statuses (selected_devices args inventory) S)))"
proof -
  have 1: "mset (online_of sts) + mset (offline_of sts) = mset sts"
    by (simp add: online_of_def offline_of_def)
  have 2: "set (online_of sts) \<inter> set (offline_of sts) = {}"
    by (auto simp: online_of_def offline_of_def)
  have 3: "\<forall>s\<in>set sts. (s \<in> set (online_of sts)) \<noteq> (s \<in> set (offline_of sts))"
    by (auto simp: online_of_def offline_of_def)
  have 4: "subseq (online_of sts) sts \<and> subseq (offline_of sts) sts"
    by (simp add: online_of_def offline_of_def)
  have 5: "Print_online l \<in> set (main args inventory S) \<longrightarrow>
        l = online_of (device_statuses (selected_devices args inventory) S)"
    by (auto simp: main_def Let_def split: if_splits)
  have 6: "Print_offline l \<in> set (main args inventory S) \<longrightarrow>
        l = offline_of (device_statuses (selected_devices args inventory) S)"
    by (auto simp: main_def Let_def split: if_splits)
  have len: "length (online_of xs) + length (offline_of xs) = length xs" for xs
    unfolding online_of_def offline_of_def
    using sum_length_filter_compl [of "\<lambda>s. is_online s" xs] by simp
  have 7: "Print_summary msg t a b \<in> set (main args inventory S) \<longrightarrow>
        a + b = t \<and> t = length (selected_devices args inventory)
        \<and> a = length (online_of (device_statuses (selected_devices args inventory) S))
        \<and> b = length (offline_of (device_statuses (selected_devices args inventory) S))"
    using len [of "device_statuses (selected_devices args inventory) S"]
    by (auto simp: main_def Let_def device_statuses_def split: if_splits)
  from 1 2 3 4 5 6 7 show ?thesis by blast
qed

theorem online_offline_partition_witness:
  "Print_summary [] 2 1 1 \<in> set (main \<lparr>online = False, offline = False, friendly = None, mac = None\<rparr>
      [living_room_tv, unlabelled_device, bare_device] {''AA:BB:CC:DD:EE:FF''})
   \<and> (1::nat) + 1 = 2
   \<and> length (selected_devices \<lparr>online = False, offline = False, friendly = None, mac = None\<rparr>
        [living_room_tv, unlabelled_device, bare_device]) = 2
   \<and> Print_online [get_device_status living_room_tv {''AA:BB:CC:DD:EE:FF''}]
      \<in> set (main \<lparr>online = False, offline = False, friendly = None, mac = None\<rparr>
      [living_room_tv, unlabelled_device, bare_device] {''AA:BB:CC:DD:EE:FF''})
   \<and> Print_offline [get_device_status bare_device {''AA:BB:CC:DD:EE:FF''}]
      \<in> set (main \<lparr>online = False, offline = False, friendly = None, mac = None\<rparr>
      [living_room_tv, unlabelled_device, bare_device] {''AA:BB:CC:DD:EE:FF''})"
  using online_offline_partition [where
      sts = "device_statuses [living_room_tv, bare_device] {''AA:BB:CC:DD:EE:FF''}"
      and l = "[get_device_status living_room_tv {''AA:BB:CC:DD:EE:FF''}]"
      and args = "\<lparr>online = False, offline = False, friendly = None, mac = None\<rparr>"
      and inventory = "[living_room_tv, unlabelled_device, bare_device]"
      and S = "{''AA:BB:CC:DD:EE:FF''}" and msg = "[]" and t = 2 and a = 1 and b = 1]
    online_offline_partition [where
      sts = "device_statuses [living_room_tv, bare_device] {''AA:BB:CC:DD:EE:FF''}"
      and l = "[get_device_status bare_device {''AA:BB:CC:DD:EE:FF''}]"
      and args = "\<lparr>online = False, offline = False, friendly = None, mac = None\<rparr>"
      and inventory = "[living_room_tv, unlabelled_device, bare_device]"
      and S = "{''AA:BB:CC:DD:EE:FF''}" and msg = "[]" and t = 2 and a = 1 and b = 1]
  by (simp add: main_def Let_def selected_devices_def filter_devices_def labelled_devices_def
      uuid_named_def device_statuses_def online_of_def offline_of_def filter_msg_def
      get_device_status_def example_defs)

section \<open>Parsing: helper lemmas\<close>

lemma map_result_succeeds:
  "(\<And>x. x \<in> set xs \<Longrightarrow> \<exists>y. f x = Inr y \<and> Q y) \<Longrightarrow>
     \<exists>ys. map_result f xs = Inr ys \<and> (\<forall>y\<in>set ys. Q y) \<and> length ys = length xs"
proof (induction xs)
  case Nil
  then show ?case by simp
next
  case (Cons x xs)
  from Cons.prems obtain y where y: "f x = Inr y" "Q y" by auto
  from Cons obtain ys where ys: "map_result f xs = Inr ys" "\<forall>y\<in>set ys. Q y" "length ys = length xs"
    by auto
  from y ys show ?case by simp
qed

lemma map_result_fails:
  "x \<in> set xs \<Longrightarrow> isl (f x) \<Longrightarrow> isl (map_result f xs)"
  by (induction xs) (auto split: sum.splits)

lemma map_result_error:
  "map_result f xs = Inl e \<Longrightarrow> \<exists>x\<in>set xs. f x = Inl e"
  by (induction xs) (auto split: sum.splits)

lemma map_result_cong:
  "(\<And>x. x \<in> set xs \<Longrightarrow> f x = g x) \<Longrightarrow> map_result f xs = map_result g xs"
  by (induction xs) (auto split: sum.splits)

lemma map_result_map: "map_result f (map h xs) = map_result (\<lambda>x. f (h x)) xs"
  by (induction xs) (auto split: sum.splits)

lemma validated_Inl: "validated x = Inl e \<Longrightarrow> e = ValidationError"
  by (cases x) auto

lemma validated_Inr: "validated x = Inr y \<longleftrightarrow> x = Some y"
  by (cases x) auto

lemma field_bad_required: "field_bad v kvs k \<longleftrightarrow> required v kvs k = None"
  by (auto simp: field_bad_def required_def Option.is_none_def split: option.splits)

lemma optional_absent: "map_of kvs k = None \<Longrightarrow> optional v kvs k = Some None"
  by (simp add: optional_def)

lemmas init_defs =
  Model_init_def Unit_init_def Interface_init_def Connection_init_def Property_init_def
  Device_init_def

lemmas example_json_defs =
  minimal_json_def extended_json_def no_model_json_def no_id_json_def tv_interface_json_def

lemmas lax_defs =
  lax_validators_def uuid_of_string_def uuid_of_hex_def hex_digit_def int_of_string.simps
  nat_of_digits_def digit_value_def int_of_float_def bool_of_int_def bool_of_string_def

lemmas parse_defs = init_defs construct_all_def construct_one_def required_def optional_def

lemma init_errors:
  "Model_init vs kvs = Inl e \<Longrightarrow> e = ValidationError"
  "Unit_init vs kvs = Inl e \<Longrightarrow> e = ValidationError"
  "Interface_init vs kvs = Inl e \<Longrightarrow> e = ValidationError"
  "Connection_init vs kvs = Inl e \<Longrightarrow> e = ValidationError"
  "Property_init vs kvs = Inl e \<Longrightarrow> e = ValidationError"
  "Device_init vs kvs m u ifs conns props = Inl e \<Longrightarrow> e = ValidationError"
  unfolding init_defs by (rule validated_Inl, assumption)+

lemma construct_one_shape:
  assumes "has dev k is_object" and "construct_one init (JObj dev) k = Inl e"
    and "\<And>kvs e. init kvs = Inl e \<Longrightarrow> e = ValidationError"
  shows "e = ValidationError"
proof -
  from assms(1) obtain kvs where "map_of dev k = Some (JObj kvs)"
    by (auto simp: has_def split: option.splits elim: is_object.elims)
  with assms(2) have "init kvs = Inl e"
    by (simp add: construct_one_def)
  then show ?thesis by (rule assms(3))
qed

lemma construct_all_shape:
  assumes "has dev k is_object_list" and "construct_all init (JObj dev) k = Inl e"
    and "\<And>kvs e. init kvs = Inl e \<Longrightarrow> e = ValidationError"
  shows "e = ValidationError"
proof -
  from assms(1) obtain xs where xs: "map_of dev k = Some (JList xs)" "list_all is_object xs"
    by (auto simp: has_def split: option.splits elim: is_object_list.elims)
  with assms(2) have "map_result (construct init) xs = Inl e"
    by (simp add: construct_all_def)
  then obtain x where x: "x \<in> set xs" "construct init x = Inl e"
    using map_result_error by blast
  with xs(2) obtain kvs where "x = JObj kvs"
    by (auto simp: list_all_iff elim: is_object.elims)
  with x(2) have "init kvs = Inl e" by simp
  then show ?thesis by (rule assms(3))
qed

lemma well_shaped_error:
  assumes "well_shaped dev" and "parse_device vs (JObj dev) = Inl e"
  shows "e = ValidationError"
proof -
  from assms(1) have sh: "has dev ''model'' is_object" "has dev ''unit'' is_object"
    "has dev ''knownInterfaces'' is_object_list" "has dev ''connections'' is_object_list"
    "has dev ''properties'' is_object_list"
    by (simp_all add: well_shaped_def)
  from assms(2) consider
      "construct_one (Model_init vs) (JObj dev) ''model'' = Inl e"
    | "construct_one (Unit_init vs) (JObj dev) ''unit'' = Inl e"
    | "construct_all (Interface_init vs) (JObj dev) ''knownInterfaces'' = Inl e"
    | "construct_all (Connection_init vs) (JObj dev) ''connections'' = Inl e"
    | "construct_all (Property_init vs) (JObj dev) ''properties'' = Inl e"
    | m u ifs conns props where "Device_init vs dev m u ifs conns props = Inl e"
    by (auto split: sum.splits)
  then show ?thesis
  proof cases
    case 1
    then show ?thesis using construct_one_shape [OF sh(1)] init_errors(1) by blast
  next
    case 2
    then show ?thesis using construct_one_shape [OF sh(2)] init_errors(2) by blast
  next
    case 3
    then show ?thesis using construct_all_shape [OF sh(3)] init_errors(3) by blast
  next
    case 4
    then show ?thesis using construct_all_shape [OF sh(4)] init_errors(4) by blast
  next
    case 5
    then show ?thesis using construct_all_shape [OF sh(5)] init_errors(5) by blast
  next
    case 6
    then show ?thesis by (rule init_errors(6))
  qed
qed

lemma parse_device_Inr:
  assumes "parse_device vs (JObj dev) = Inr d"
  obtains m u ifs conns props where
    "construct_one (Model_init vs) (JObj dev) ''model'' = Inr m"
    "construct_one (Unit_init vs) (JObj dev) ''unit'' = Inr u"
    "construct_all (Interface_init vs) (JObj dev) ''knownInterfaces'' = Inr ifs"
    "construct_all (Connection_init vs) (JObj dev) ''connections'' = Inr conns"
    "construct_all (Property_init vs) (JObj dev) ''properties'' = Inr props"
    "Device_init vs dev m u ifs conns props = Inr d"
  using assms by (auto split: sum.splits)

lemma construct_one_not_bad:
  assumes "construct_one init (JObj dev) k = Inr m"
    and "\<And>kvs. P kvs \<Longrightarrow> isl (init kvs)"
  shows "\<not> nested_bad dev k P"
proof
  assume bad: "nested_bad dev k P"
  from assms(1) obtain j where j: "map_of dev k = Some j" "construct init j = Inr m"
    by (auto simp: construct_one_def split: option.splits sum.splits)
  from j(2) obtain kvs where kvs: "j = JObj kvs" "init kvs = Inr m"
    by (cases j) auto
  with bad j(1) have "P kvs" by (simp add: nested_bad_def)
  then have "isl (init kvs)" by (rule assms(2))
  with kvs(2) show False by simp
qed

lemma construct_all_not_bad:
  assumes "construct_all init (JObj dev) k = Inr ys"
    and "\<And>kvs. P kvs \<Longrightarrow> isl (init kvs)"
  shows "\<not> elements_bad dev k P"
proof
  assume bad: "elements_bad dev k P"
  then obtain xs x where xs: "map_of dev k = Some (JList xs)" "x \<in> set xs" "element_bad P x"
    by (auto simp: elements_bad_def list_ex_iff split: option.splits json.splits)
  have "isl (construct init x)"
  proof (cases x)
    case (JObj kvs)
    with xs(3) have "P kvs" by simp
    then have "isl (init kvs)" by (rule assms(2))
    with JObj show ?thesis by simp
  qed simp_all
  with xs(2) have "isl (map_result (construct init) xs)"
    by (rule map_result_fails)
  with assms(1) xs(1) show False
    by (simp add: construct_all_def)
qed

lemma Model_init_Inr:
  "Model_init vs kvs = Inr m \<Longrightarrow> \<exists>dt. required (v_str vs) kvs ''deviceType'' = Some dt"
  by (auto simp: Model_init_def validated_Inr bind_eq_Some_conv)

lemma Interface_init_Inr:
  "Interface_init vs kvs = Inr i \<Longrightarrow>
     (\<exists>ma. required (v_str vs) kvs ''macAddress'' = Some ma)
     \<and> (\<exists>ty. required (v_str vs) kvs ''interfaceType'' = Some ty)"
  by (auto simp: Interface_init_def validated_Inr bind_eq_Some_conv)

lemma Connection_init_Inr:
  "Connection_init vs kvs = Inr c \<Longrightarrow> \<exists>ma. required (v_str vs) kvs ''macAddress'' = Some ma"
  by (auto simp: Connection_init_def validated_Inr bind_eq_Some_conv)

lemma Property_init_Inr:
  "Property_init vs kvs = Inr p \<Longrightarrow>
     (\<exists>na. required (v_str vs) kvs ''name'' = Some na)
     \<and> (\<exists>va. required (v_str vs) kvs ''value'' = Some va)"
  by (auto simp: Property_init_def validated_Inr bind_eq_Some_conv)

lemma Device_init_Inr:
  "Device_init vs kvs m u ifs conns props = Inr d \<Longrightarrow>
     (\<exists>di. required (v_uuid vs) kvs ''deviceID'' = Some di)
     \<and> (\<exists>lr. required (v_int vs) kvs ''lastChangeRevision'' = Some lr)
     \<and> (\<exists>ia. required (v_bool vs) kvs ''isAuthority'' = Some ia)
     \<and> (\<exists>mp. required (v_int vs) kvs ''maxAllowedProperties'' = Some mp)"
  by (auto simp: Device_init_def validated_Inr bind_eq_Some_conv)

lemma not_Inr_isl: "(\<And>y. r \<noteq> Inr y) \<Longrightarrow> isl r"
  by (cases r) auto

lemma bad_field_fails:
  "field_bad (v_str vs) kvs ''deviceType'' \<Longrightarrow> isl (Model_init vs kvs)"
  "field_bad (v_str vs) kvs ''macAddress'' \<or> field_bad (v_str vs) kvs ''interfaceType''
     \<Longrightarrow> isl (Interface_init vs kvs)"
  "field_bad (v_str vs) kvs ''macAddress'' \<Longrightarrow> isl (Connection_init vs kvs)"
  "field_bad (v_str vs) kvs ''name'' \<or> field_bad (v_str vs) kvs ''value''
     \<Longrightarrow> isl (Property_init vs kvs)"
proof -
  show "field_bad (v_str vs) kvs ''deviceType'' \<Longrightarrow> isl (Model_init vs kvs)"
    using Model_init_Inr [of vs kvs] by (intro not_Inr_isl) (auto simp: field_bad_required)
  show "field_bad (v_str vs) kvs ''macAddress'' \<or> field_bad (v_str vs) kvs ''interfaceType''
     \<Longrightarrow> isl (Interface_init vs kvs)"
    using Interface_init_Inr [of vs kvs] by (intro not_Inr_isl) (auto simp: field_bad_required)
  show "field_bad (v_str vs) kvs ''macAddress'' \<Longrightarrow> isl (Connection_init vs kvs)"
    using Connection_init_Inr [of vs kvs] by (intro not_Inr_isl) (auto simp: field_bad_required)
  show "field_bad (v_str vs) kvs ''name'' \<or> field_bad (v_str vs) kvs ''value''
     \<Longrightarrow> isl (Property_init vs kvs)"
    using Property_init_Inr [of vs kvs] by (intro not_Inr_isl) (auto simp: field_bad_required)
qed

lemma bad_scalar_fails:
  assumes "field_bad (v_uuid vs) dev ''deviceID'' \<or> field_bad (v_int vs) dev ''lastChangeRevision''
    \<or> field_bad (v_bool vs) dev ''isAuthority'' \<or> field_bad (v_int vs) dev ''maxAllowedProperties''"
  shows "isl (Device_init vs dev m u ifs conns props)"
  using assms Device_init_Inr [of vs dev m u ifs conns props]
  by (intro not_Inr_isl) (auto simp: field_bad_required)

lemma required_bad_fails:
  assumes "required_field_bad vs dev"
  shows "isl (parse_device vs (JObj dev))"
proof (cases "parse_device vs (JObj dev)")
  case (Inl e)
  then show ?thesis by simp
next
  case (Inr d)
  then obtain m u ifs conns props where st:
    "construct_one (Model_init vs) (JObj dev) ''model'' = Inr m"
    "construct_all (Interface_init vs) (JObj dev) ''knownInterfaces'' = Inr ifs"
    "construct_all (Connection_init vs) (JObj dev) ''connections'' = Inr conns"
    "construct_all (Property_init vs) (JObj dev) ''properties'' = Inr props"
    "Device_init vs dev m u ifs conns props = Inr d"
    by (rule parse_device_Inr)
  have 1: "\<not> nested_bad dev ''model'' (\<lambda>kvs. field_bad (v_str vs) kvs ''deviceType'')"
    by (rule construct_one_not_bad [OF st(1)]) (rule bad_field_fails(1))
  have 2: "\<not> elements_bad dev ''knownInterfaces''
           (\<lambda>kvs. field_bad (v_str vs) kvs ''macAddress'' \<or> field_bad (v_str vs) kvs ''interfaceType'')"
    by (rule construct_all_not_bad [OF st(2)]) (rule bad_field_fails(2))
  have 3: "\<not> elements_bad dev ''connections'' (\<lambda>kvs. field_bad (v_str vs) kvs ''macAddress'')"
    by (rule construct_all_not_bad [OF st(3)]) (rule bad_field_fails(3))
  have 4: "\<not> elements_bad dev ''properties''
           (\<lambda>kvs. field_bad (v_str vs) kvs ''name'' \<or> field_bad (v_str vs) kvs ''value'')"
    by (rule construct_all_not_bad [OF st(4)]) (rule bad_field_fails(4))
  from assms 1 2 3 4 have "field_bad (v_uuid vs) dev ''deviceID''
    \<or> field_bad (v_int vs) dev ''lastChangeRevision''
    \<or> field_bad (v_bool vs) dev ''isAuthority'' \<or> field_bad (v_int vs) dev ''maxAllowedProperties''"
    by (simp add: required_field_bad_def)
  then have "isl (Device_init vs dev m u ifs conns props)"
    by (rule bad_scalar_fails)
  with st(5) show ?thesis by simp
qed

lemma parse_devices_fails:
  assumes "j \<in> set ds" and "isl (parse_device vs j)"
  shows "isl (parse_devices vs (JList ds))"
  using map_result_fails [of j ds "parse_device vs"] assms by (simp add: parse_devices_def)

lemma get_devices_response: "get_devices vs (response_of devs) = parse_devices vs devs"
  by (simp add: get_devices_def response_of_def)

section \<open>Parsing: failure on a bad required field\<close>

lemma field_wrong_bad:
  assumes "rejects_non_scalars vs" and "field_wrong kvs k"
  shows "field_bad (v_uuid vs) kvs k" "field_bad (v_int vs) kvs k"
    "field_bad (v_str vs) kvs k" "field_bad (v_bool vs) kvs k"
  using assms
  by (auto simp: rejects_non_scalars_def field_wrong_def field_bad_def split: option.splits)

lemma nested_bad_mono:
  "nested_bad dev k P \<Longrightarrow> (\<And>kvs. P kvs \<Longrightarrow> Q kvs) \<Longrightarrow> nested_bad dev k Q"
  by (auto simp: nested_bad_def split: option.splits json.splits)

lemma element_bad_mono:
  "element_bad P x \<Longrightarrow> (\<And>kvs. P kvs \<Longrightarrow> Q kvs) \<Longrightarrow> element_bad Q x"
  by (cases x) auto

lemma elements_bad_mono:
  "elements_bad dev k P \<Longrightarrow> (\<And>kvs. P kvs \<Longrightarrow> Q kvs) \<Longrightarrow> elements_bad dev k Q"
  by (auto simp: elements_bad_def list_ex_iff split: option.splits json.splits
      intro: element_bad_mono)

lemma required_field_wrong_bad:
  assumes r: "rejects_non_scalars vs" and w: "required_field_wrong dev"
  shows "required_field_bad vs dev"
proof -
  note fb = field_wrong_bad [OF r]
  from w consider
      "field_wrong dev ''deviceID''"
    | "field_wrong dev ''lastChangeRevision''"
    | "nested_bad dev ''model'' (\<lambda>kvs. field_wrong kvs ''deviceType'')"
    | "field_wrong dev ''isAuthority''"
    | "field_wrong dev ''maxAllowedProperties''"
    | "elements_bad dev ''knownInterfaces''
         (\<lambda>kvs. field_wrong kvs ''macAddress'' \<or> field_wrong kvs ''interfaceType'')"
    | "elements_bad dev ''connections'' (\<lambda>kvs. field_wrong kvs ''macAddress'')"
    | "elements_bad dev ''properties''
         (\<lambda>kvs. field_wrong kvs ''name'' \<or> field_wrong kvs ''value'')"
    unfolding required_field_wrong_def by blast
  then show ?thesis
  proof cases
    case 1
    then show ?thesis by (simp add: required_field_bad_def fb(1))
  next
    case 2
    then show ?thesis by (simp add: required_field_bad_def fb(2))
  next
    case 3
    then have "nested_bad dev ''model'' (\<lambda>kvs. field_bad (v_str vs) kvs ''deviceType'')"
      by (rule nested_bad_mono) (rule fb(3))
    then show ?thesis by (simp add: required_field_bad_def)
  next
    case 4
    then show ?thesis by (simp add: required_field_bad_def fb(4))
  next
    case 5
    then show ?thesis by (simp add: required_field_bad_def fb(2))
  next
    case 6
    then have "elements_bad dev ''knownInterfaces''
         (\<lambda>kvs. field_bad (v_str vs) kvs ''macAddress'' \<or> field_bad (v_str vs) kvs ''interfaceType'')"
      by (rule elements_bad_mono) (auto intro: fb(3))
    then show ?thesis by (simp add: required_field_bad_def)
  next
    case 7
    then have "elements_bad dev ''connections'' (\<lambda>kvs. field_bad (v_str vs) kvs ''macAddress'')"
      by (rule elements_bad_mono) (rule fb(3))
    then show ?thesis by (simp add: required_field_bad_def)
  next
    case 8
    then have "elements_bad dev ''properties''
         (\<lambda>kvs. field_bad (v_str vs) kvs ''name'' \<or> field_bad (v_str vs) kvs ''value'')"
      by (rule elements_bad_mono) (auto intro: fb(3))
    then show ?thesis by (simp add: required_field_bad_def)
  qed
qed

lemma lax_rejects_non_scalars: "rejects_non_scalars lax_validators"
  unfolding rejects_non_scalars_def
proof (intro allI impI)
  fix j
  assume "non_scalar j"
  then show "v_uuid lax_validators j = None \<and> v_int lax_validators j = None
      \<and> v_str lax_validators j = None \<and> v_bool lax_validators j = None"
    by (cases j) (simp_all add: lax_validators_def)
qed

text \<open>
  C6, as the code has it. For every JSON device record in which a required field
  (\<open>deviceID\<close>, \<open>lastChangeRevision\<close>, \<open>model.deviceType\<close>, \<open>isAuthority\<close>,
  \<open>maxAllowedProperties\<close>, or a required field of an element of a nested array) is absent,
  or holds a value of a wrong type that its validator rejects, as every validator does
  \<open>None\<close>, a list and a \<open>dict\<close>, parsing fails: no device is returned, and no device list is
  returned for a device array that holds the record. When the record has the shape of a
  device (objects under \<open>model\<close> and \<open>unit\<close>, arrays of objects under \<open>knownInterfaces\<close>,
  \<open>connections\<close> and \<open>properties\<close>) the failure is a \<open>ValidationError\<close>.
\<close>

theorem bad_required_field_fails:
  assumes "(rejects_non_scalars vs \<and> required_field_wrong dev) \<or> required_field_bad vs dev"
  shows "isl (parse_device vs (JObj dev))
    \<and> (well_shaped dev \<longrightarrow> parse_device vs (JObj dev) = Inl ValidationError)
    \<and> (JObj dev \<in> set ds \<longrightarrow> isl (parse_devices vs (JList ds)))
    \<and> (JObj dev \<in> set ds \<longrightarrow> isl (get_devices vs (response_of (JList ds))))"
proof -
  from assms have bad: "required_field_bad vs dev"
    using required_field_wrong_bad by blast
  have fails: "isl (parse_device vs (JObj dev))"
    using bad by (rule required_bad_fails)
  have kind: "well_shaped dev \<longrightarrow> parse_device vs (JObj dev) = Inl ValidationError"
  proof
    assume sh: "well_shaped dev"
    from fails obtain e where e: "parse_device vs (JObj dev) = Inl e"
      by (cases "parse_device vs (JObj dev)") auto
    with sh have "e = ValidationError" by (rule well_shaped_error)
    with e show "parse_device vs (JObj dev) = Inl ValidationError" by simp
  qed
  have whole: "JObj dev \<in> set ds \<longrightarrow> isl (parse_devices vs (JList ds))"
    using fails parse_devices_fails [of "JObj dev" ds vs] by blast
  from fails kind whole show ?thesis
    by (simp add: get_devices_response)
qed

theorem bad_required_field_fails_witness:
  "rejects_non_scalars lax_validators
   \<and> required_field_wrong null_revision_json
   \<and> well_shaped null_revision_json
   \<and> parse_device lax_validators (JObj null_revision_json) = Inl ValidationError
   \<and> isl (get_devices lax_validators
          (response_of (JList [JObj minimal_json, JObj null_revision_json])))
   \<and> required_field_bad lax_validators no_id_json
   \<and> well_shaped no_id_json
   \<and> parse_device lax_validators (JObj no_id_json) = Inl ValidationError
   \<and> isl (parse_devices lax_validators (JList [JObj minimal_json, JObj no_id_json]))"
proof -
  have w: "required_field_wrong null_revision_json"
    by (simp add: required_field_wrong_def field_wrong_def null_revision_json_def)
  have shw: "well_shaped null_revision_json"
    by (simp add: well_shaped_def has_def null_revision_json_def tv_interface_json_def)
  have bad: "required_field_bad lax_validators no_id_json"
    by (simp add: required_field_bad_def field_bad_def no_id_json_def minimal_json_def)
  have sh: "well_shaped no_id_json"
    by (simp add: well_shaped_def has_def no_id_json_def minimal_json_def tv_interface_json_def)
  have h1: "(rejects_non_scalars lax_validators \<and> required_field_wrong null_revision_json)
      \<or> required_field_bad lax_validators null_revision_json"
    using lax_rejects_non_scalars w by simp
  have h2: "(rejects_non_scalars lax_validators \<and> required_field_wrong no_id_json)
      \<or> required_field_bad lax_validators no_id_json"
    using bad by simp
  show ?thesis
    using bad_required_field_fails [OF h1, of "[JObj minimal_json, JObj null_revision_json]"]
      bad_required_field_fails [OF h2, of "[JObj minimal_json, JObj no_id_json]"]
      lax_rejects_non_scalars w shw bad sh
    by simp
qed

text \<open>
  C6, as the claim states it, fails on the code in two ways. A record without \<open>deviceID\<close>
  that also lacks the \<open>model\<close> key has a required field absent, and parsing it fails with
  a \<open>KeyError\<close>, not a \<open>ValidationError\<close>. And a record whose \<open>int\<close> field
  \<open>lastChangeRevision\<close> holds the string \<open>1\<close> and whose \<open>bool\<close> field \<open>isAuthority\<close> holds the
  number 0 has two required fields of the wrong type, and parsing it succeeds: the
  validation library coerces them to 1 and \<open>False\<close>.
\<close>

theorem validation_error_counterexample:
  "field_bad (v_uuid lax_validators) no_model_json ''deviceID''
   \<and> parse_device lax_validators (JObj no_model_json) = Inl KeyError
   \<and> map_of coerced_json ''lastChangeRevision'' = Some (JStr ''1'')
   \<and> map_of coerced_json ''isAuthority'' = Some (JInt 0)
   \<and> parse_device lax_validators (JObj coerced_json) = Inr (plain_device None [tv_interface])
   \<and> lastChangeRevision (plain_device None [tv_interface]) = 1
   \<and> isAuthority (plain_device None [tv_interface]) = False"
  by (simp add: field_bad_def no_model_json_def coerced_json_def tv_interface_json_def
      parse_defs lax_defs plain_device_def tv_interface_def)

section \<open>Parsing: records without optional fields\<close>

lemma required_ok: "\<not> field_bad v kvs k \<Longrightarrow> \<exists>x. required v kvs k = Some x"
  by (auto simp: field_bad_required)

lemma Model_minimal:
  assumes "\<not> field_bad (v_str vs) kvs ''deviceType''"
    and "absent [''manufacturer'', ''modelNumber'', ''hardwareVersion'', ''description''] kvs"
  shows "\<exists>m. Model_init vs kvs = Inr m \<and> manufacturer m = None \<and> modelNumber m = None
           \<and> hardwareVersion m = None \<and> description m = None"
proof -
  from assms(1) obtain dt where "required (v_str vs) kvs ''deviceType'' = Some dt"
    using required_ok by blast
  with assms(2) show ?thesis
    by (simp add: Model_init_def absent_def optional_absent)
qed

lemma Unit_minimal:
  assumes "absent [''serialNumber'', ''firmwareVersion'', ''firmwareDate''] kvs"
  shows "\<exists>u. Unit_init vs kvs = Inr u \<and> serialNumber u = None \<and> firmwareVersion u = None
           \<and> firmwareDate u = None"
  using assms by (simp add: Unit_init_def absent_def optional_absent)

lemma Interface_minimal:
  assumes "\<not> (field_bad (v_str vs) kvs ''macAddress'' \<or> field_bad (v_str vs) kvs ''interfaceType'')"
    and "absent [''band''] kvs"
  shows "\<exists>i. Interface_init vs kvs = Inr i \<and> band i = None"
proof -
  from assms(1) obtain ma ty where "required (v_str vs) kvs ''macAddress'' = Some ma"
    "required (v_str vs) kvs ''interfaceType'' = Some ty"
    using required_ok by blast
  with assms(2) show ?thesis
    by (simp add: Interface_init_def absent_def optional_absent)
qed

lemma Connection_minimal:
  assumes "\<not> field_bad (v_str vs) kvs ''macAddress''"
    and "absent [''ipAddress'', ''ipv6Address'', ''parentDeviceID''] kvs"
  shows "\<exists>c. Connection_init vs kvs = Inr c \<and> ipAddress c = None \<and> ipv6Address c = None
           \<and> parentDeviceID c = None"
proof -
  from assms(1) obtain ma where "required (v_str vs) kvs ''macAddress'' = Some ma"
    using required_ok by blast
  with assms(2) show ?thesis
    by (simp add: Connection_init_def absent_def optional_absent)
qed

lemma Property_supplied:
  assumes "\<not> (field_bad (v_str vs) kvs ''name'' \<or> field_bad (v_str vs) kvs ''value'')"
  shows "\<exists>p. Property_init vs kvs = Inr p \<and> True"
proof -
  from assms obtain na va where "required (v_str vs) kvs ''name'' = Some na"
    "required (v_str vs) kvs ''value'' = Some va"
    using required_ok by blast
  then show ?thesis
    by (simp add: Property_init_def)
qed

lemma Device_minimal:
  assumes "\<not> field_bad (v_uuid vs) dev ''deviceID''"
    and "\<not> field_bad (v_int vs) dev ''lastChangeRevision''"
    and "\<not> field_bad (v_bool vs) dev ''isAuthority''"
    and "\<not> field_bad (v_int vs) dev ''maxAllowedProperties''"
    and "absent [''nodeType'', ''friendlyName''] dev"
  shows "\<exists>d. Device_init vs dev m u ifs conns props = Inr d \<and> nodeType d = None
           \<and> friendlyName d = None \<and> model d = m \<and> unit d = u \<and> knownInterfaces d = ifs
           \<and> connections d = conns \<and> properties d = props"
proof -
  from assms(1-4) obtain di lr ia mp where
    "required (v_uuid vs) dev ''deviceID'' = Some di"
    "required (v_int vs) dev ''lastChangeRevision'' = Some lr"
    "required (v_bool vs) dev ''isAuthority'' = Some ia"
    "required (v_int vs) dev ''maxAllowedProperties'' = Some mp"
    using required_ok by metis
  with assms(5) show ?thesis
    by (simp add: Device_init_def absent_def optional_absent)
qed

lemma construct_one_succeeds:
  assumes "has dev k is_object" and "\<not> nested_bad dev k P" and "has dev k (object_omits ks)"
    and "\<And>kvs. \<not> P kvs \<Longrightarrow> absent ks kvs \<Longrightarrow> \<exists>y. init kvs = Inr y \<and> Q y"
  shows "\<exists>y. construct_one init (JObj dev) k = Inr y \<and> Q y"
proof -
  from assms(1) obtain kvs where kvs: "map_of dev k = Some (JObj kvs)"
    by (auto simp: has_def split: option.splits elim: is_object.elims)
  with assms(2) have "\<not> P kvs" by (simp add: nested_bad_def)
  moreover from assms(3) kvs have "absent ks kvs" by (simp add: has_def)
  ultimately have "\<exists>y. init kvs = Inr y \<and> Q y" by (rule assms(4))
  with kvs show ?thesis by (simp add: construct_one_def)
qed

lemma construct_all_succeeds:
  assumes "has dev k is_object_list" and "\<not> elements_bad dev k P" and "has dev k (objects_omit ks)"
    and "\<And>kvs. \<not> P kvs \<Longrightarrow> absent ks kvs \<Longrightarrow> \<exists>y. init kvs = Inr y \<and> Q y"
  shows "\<exists>ys. construct_all init (JObj dev) k = Inr ys \<and> (\<forall>y\<in>set ys. Q y)"
proof -
  from assms(1) obtain xs where xs: "map_of dev k = Some (JList xs)" "list_all is_object xs"
    by (auto simp: has_def split: option.splits elim: is_object_list.elims)
  from assms(2) xs(1) have nb: "\<not> list_ex (element_bad P) xs"
    by (simp add: elements_bad_def)
  from assms(3) xs(1) have om: "list_all (object_omits ks) xs"
    by (simp add: has_def)
  have "\<exists>y. construct init x = Inr y \<and> Q y" if "x \<in> set xs" for x
  proof -
    from that xs(2) obtain kvs where x: "x = JObj kvs"
      by (auto simp: list_all_iff elim: is_object.elims)
    from that nb x have "\<not> P kvs" by (auto simp: list_ex_iff)
    moreover from that om x have "absent ks kvs" by (auto simp: list_all_iff)
    ultimately have "\<exists>y. init kvs = Inr y \<and> Q y" by (rule assms(4))
    with x show ?thesis by simp
  qed
  then have "\<exists>ys. map_result (construct init) xs = Inr ys \<and> (\<forall>y\<in>set ys. Q y) \<and> length ys = length xs"
    by (rule map_result_succeeds)
  with xs(1) show ?thesis by (auto simp: construct_all_def)
qed

lemma object_omits_nothing: "object_omits [] x"
  by (cases x) (simp_all add: absent_def)

lemma objects_omit_nothing: "has dev k is_object_list \<Longrightarrow> has dev k (objects_omit [])"
  by (auto simp: has_def list_all_iff object_omits_nothing split: option.splits
      elim!: is_object_list.elims)

text \<open>
  C7. For every device JSON record that supplies all required fields and omits every
  optional field, parsing succeeds, and every optional field of the resulting device, of
  its model, of its unit, of each of its interfaces and of each of its connections is
  absent.
\<close>

theorem minimal_record_parses:
  assumes "supplies_required vs dev" and "omits_optional dev"
  shows "\<exists>d. parse_device vs (JObj dev) = Inr d
    \<and> nodeType d = None \<and> friendlyName d = None
    \<and> manufacturer (model d) = None \<and> modelNumber (model d) = None
    \<and> hardwareVersion (model d) = None \<and> description (model d) = None
    \<and> serialNumber (unit d) = None \<and> firmwareVersion (unit d) = None
    \<and> firmwareDate (unit d) = None
    \<and> (\<forall>i\<in>set (knownInterfaces d). band i = None)
    \<and> (\<forall>c\<in>set (connections d). ipAddress c = None \<and> ipv6Address c = None
          \<and> parentDeviceID c = None)"
proof -
  from assms(1) have sh: "has dev ''model'' is_object" "has dev ''unit'' is_object"
    "has dev ''knownInterfaces'' is_object_list" "has dev ''connections'' is_object_list"
    "has dev ''properties'' is_object_list"
    by (simp_all add: supplies_required_def well_shaped_def)
  from assms(1) have ok:
    "\<not> field_bad (v_uuid vs) dev ''deviceID''"
    "\<not> field_bad (v_int vs) dev ''lastChangeRevision''"
    "\<not> nested_bad dev ''model'' (\<lambda>kvs. field_bad (v_str vs) kvs ''deviceType'')"
    "\<not> field_bad (v_bool vs) dev ''isAuthority''"
    "\<not> field_bad (v_int vs) dev ''maxAllowedProperties''"
    "\<not> elements_bad dev ''knownInterfaces''
         (\<lambda>kvs. field_bad (v_str vs) kvs ''macAddress'' \<or> field_bad (v_str vs) kvs ''interfaceType'')"
    "\<not> elements_bad dev ''connections'' (\<lambda>kvs. field_bad (v_str vs) kvs ''macAddress'')"
    "\<not> elements_bad dev ''properties''
         (\<lambda>kvs. field_bad (v_str vs) kvs ''name'' \<or> field_bad (v_str vs) kvs ''value'')"
    by (simp_all add: supplies_required_def required_field_bad_def)
  from assms(2) have om:
    "absent [''nodeType'', ''friendlyName''] dev"
    "has dev ''model''
       (object_omits [''manufacturer'', ''modelNumber'', ''hardwareVersion'', ''description''])"
    "has dev ''unit'' (object_omits [''serialNumber'', ''firmwareVersion'', ''firmwareDate''])"
    "has dev ''knownInterfaces'' (objects_omit [''band''])"
    "has dev ''connections'' (objects_omit [''ipAddress'', ''ipv6Address'', ''parentDeviceID''])"
    by (simp_all add: omits_optional_def)
  obtain m where m: "construct_one (Model_init vs) (JObj dev) ''model'' = Inr m"
    "manufacturer m = None \<and> modelNumber m = None \<and> hardwareVersion m = None \<and> description m = None"
    using construct_one_succeeds [OF sh(1) ok(3) om(2), of "Model_init vs"
        "\<lambda>m. manufacturer m = None \<and> modelNumber m = None \<and> hardwareVersion m = None
           \<and> description m = None"]
      Model_minimal [of vs] by blast
  have nb: "\<not> nested_bad dev ''unit'' (\<lambda>kvs. False)"
    using sh(2) by (auto simp: nested_bad_def has_def split: option.splits elim: is_object.elims)
  obtain u where u: "construct_one (Unit_init vs) (JObj dev) ''unit'' = Inr u"
    "serialNumber u = None \<and> firmwareVersion u = None \<and> firmwareDate u = None"
    using construct_one_succeeds [OF sh(2) nb om(3), of "Unit_init vs"
        "\<lambda>u. serialNumber u = None \<and> firmwareVersion u = None \<and> firmwareDate u = None"]
      Unit_minimal [of _ vs] by blast
  obtain ifs where ifs: "construct_all (Interface_init vs) (JObj dev) ''knownInterfaces'' = Inr ifs"
    "\<forall>i\<in>set ifs. band i = None"
    using construct_all_succeeds [OF sh(3) ok(6) om(4), of "Interface_init vs" "\<lambda>i. band i = None"]
      Interface_minimal [of vs] by blast
  obtain conns where conns: "construct_all (Connection_init vs) (JObj dev) ''connections'' = Inr conns"
    "\<forall>c\<in>set conns. ipAddress c = None \<and> ipv6Address c = None \<and> parentDeviceID c = None"
    using construct_all_succeeds [OF sh(4) ok(7) om(5), of "Connection_init vs"
        "\<lambda>c. ipAddress c = None \<and> ipv6Address c = None \<and> parentDeviceID c = None"]
      Connection_minimal [of vs] by blast
  obtain props where props: "construct_all (Property_init vs) (JObj dev) ''properties'' = Inr props"
    using construct_all_succeeds [OF sh(5) ok(8) objects_omit_nothing [OF sh(5)],
        of "Property_init vs" "\<lambda>p. True"]
      Property_supplied [of vs] by blast
  obtain d where d: "Device_init vs dev m u ifs conns props = Inr d" "nodeType d = None"
    "friendlyName d = None" "model d = m" "unit d = u" "knownInterfaces d = ifs"
    "connections d = conns"
    using Device_minimal [OF ok(1) ok(2) ok(4) ok(5) om(1), of m u ifs conns props] by blast
  have "parse_device vs (JObj dev) = Inr d"
    using m(1) u(1) ifs(1) conns(1) props d(1) by simp
  with d m(2) u(2) ifs(2) conns(2) show ?thesis by simp
qed

theorem minimal_record_parses_witness:
  "supplies_required lax_validators minimal_json \<and> omits_optional minimal_json
   \<and> parse_device lax_validators (JObj minimal_json) = Inr (plain_device None [tv_interface])
   \<and> friendlyName (plain_device None [tv_interface]) = None"
proof -
  have sup: "supplies_required lax_validators minimal_json"
    by (simp add: supplies_required_def well_shaped_def has_def required_field_bad_def
        field_bad_def nested_bad_def elements_bad_def minimal_json_def tv_interface_json_def
        lax_defs)
  have om: "omits_optional minimal_json"
    by (simp add: omits_optional_def has_def absent_def minimal_json_def tv_interface_json_def)
  have ev: "parse_device lax_validators (JObj minimal_json) = Inr (plain_device None [tv_interface])"
    by (simp add: minimal_json_def tv_interface_json_def parse_defs lax_defs plain_device_def
        tv_interface_def)
  show ?thesis
    using minimal_record_parses [OF sup om] sup om ev
    by (simp add: plain_device_def)
qed

section \<open>Parsing: unknown fields\<close>

lemmas field_defs =
  Model_fields_def Unit_fields_def Interface_fields_def Connection_fields_def
  Property_fields_def Device_fields_def

lemma map_of_known_only:
  "map_of (known_only ks kvs) k = (if k \<in> set ks then map_of kvs k else None)"
  by (induction kvs) (auto simp: known_only_def)

lemma required_known_only: "k \<in> set ks \<Longrightarrow> required v (known_only ks kvs) k = required v kvs k"
  by (simp add: required_def map_of_known_only)

lemma optional_known_only: "k \<in> set ks \<Longrightarrow> optional v (known_only ks kvs) k = optional v kvs k"
  by (simp add: optional_def map_of_known_only)

lemma init_known_only:
  "Model_init vs (known_only Model_fields kvs) = Model_init vs kvs"
  "Unit_init vs (known_only Unit_fields kvs) = Unit_init vs kvs"
  "Interface_init vs (known_only Interface_fields kvs) = Interface_init vs kvs"
  "Connection_init vs (known_only Connection_fields kvs) = Connection_init vs kvs"
  "Property_init vs (known_only Property_fields kvs) = Property_init vs kvs"
  by (simp_all add: init_defs field_defs required_known_only optional_known_only)

lemma construct_strip_object:
  assumes "\<And>kvs. init (known_only ks kvs) = init kvs"
  shows "construct init (strip_object ks j) = construct init j"
  by (cases j) (simp_all add: assms)

lemma map_of_map_values:
  "map_of (map (\<lambda>kv. (fst kv, g (fst kv) (snd kv))) xs) k = map_option (g k) (map_of xs k)"
  by (induction xs) auto

lemma map_of_strip_unknown:
  "map_of (strip_unknown dev) k =
     (if k \<in> set Device_fields then map_option (strip_nested k) (map_of dev k) else None)"
  by (simp add: strip_unknown_def map_of_map_values map_of_known_only)

lemma construct_one_strip:
  assumes "k \<in> set Device_fields" and "strip_nested k = strip_object ks"
    and "\<And>kvs. init (known_only ks kvs) = init kvs"
  shows "construct_one init (JObj (strip_unknown dev)) k = construct_one init (JObj dev) k"
proof (cases "map_of dev k")
  case None
  with assms(1) show ?thesis
    by (simp add: construct_one_def map_of_strip_unknown)
next
  case (Some j)
  with assms(1,2) show ?thesis
    by (simp add: construct_one_def map_of_strip_unknown construct_strip_object [of init ks, OF assms(3)])
qed

lemma iterate_strip_objects:
  assumes "\<And>kvs. init (known_only ks kvs) = init kvs"
  shows "(case iterate (strip_objects ks j) of Inl e \<Rightarrow> Inl e
          | Inr xs \<Rightarrow> map_result (construct init) xs)
       = (case iterate j of Inl e \<Rightarrow> Inl e | Inr xs \<Rightarrow> map_result (construct init) xs)"
proof (cases j)
  case (JList xs)
  have "map_result (construct init) (map (strip_object ks) xs) = map_result (construct init) xs"
    unfolding map_result_map
    by (rule map_result_cong) (rule construct_strip_object [of init ks, OF assms])
  with JList show ?thesis by simp
qed simp_all

lemma construct_all_strip:
  assumes "k \<in> set Device_fields" and "strip_nested k = strip_objects ks"
    and "\<And>kvs. init (known_only ks kvs) = init kvs"
  shows "construct_all init (JObj (strip_unknown dev)) k = construct_all init (JObj dev) k"
proof (cases "map_of dev k")
  case None
  with assms(1) show ?thesis
    by (simp add: construct_all_def map_of_strip_unknown)
next
  case (Some j)
  with assms(1,2) show ?thesis
    by (simp add: construct_all_def map_of_strip_unknown iterate_strip_objects [of init ks, OF assms(3)])
qed

lemma strip_nested_cases:
  "strip_nested ''model'' = strip_object Model_fields"
  "strip_nested ''unit'' = strip_object Unit_fields"
  "strip_nested ''knownInterfaces'' = strip_objects Interface_fields"
  "strip_nested ''connections'' = strip_objects Connection_fields"
  "strip_nested ''properties'' = strip_objects Property_fields"
  "strip_nested ''deviceID'' = (\<lambda>j. j)"
  "strip_nested ''lastChangeRevision'' = (\<lambda>j. j)"
  "strip_nested ''isAuthority'' = (\<lambda>j. j)"
  "strip_nested ''nodeType'' = (\<lambda>j. j)"
  "strip_nested ''friendlyName'' = (\<lambda>j. j)"
  "strip_nested ''maxAllowedProperties'' = (\<lambda>j. j)"
  by (simp_all add: strip_nested_def fun_eq_iff)

lemma map_of_strip_scalar:
  assumes "k \<in> set Device_fields" and "strip_nested k = (\<lambda>j. j)"
  shows "map_of (strip_unknown dev) k = map_of dev k"
  using assms by (simp add: map_of_strip_unknown option.map_ident)

lemma scalar_strip:
  assumes "k \<in> set Device_fields" and "strip_nested k = (\<lambda>j. j)"
  shows "required v (strip_unknown dev) k = required v dev k"
    and "optional v (strip_unknown dev) k = optional v dev k"
  using map_of_strip_scalar [OF assms] by (simp_all add: required_def optional_def)

lemma Device_init_strip:
  "Device_init vs (strip_unknown dev) m u ifs conns props = Device_init vs dev m u ifs conns props"
  by (simp add: Device_init_def scalar_strip strip_nested_cases Device_fields_def)

lemma parse_device_strip:
  "parse_device vs (JObj (strip_unknown dev)) = parse_device vs (JObj dev)"
proof -
  have m: "construct_one (Model_init vs) (JObj (strip_unknown dev)) ''model''
      = construct_one (Model_init vs) (JObj dev) ''model''"
    by (rule construct_one_strip [where ks = Model_fields])
      (simp_all add: Device_fields_def strip_nested_cases init_known_only)
  have u: "construct_one (Unit_init vs) (JObj (strip_unknown dev)) ''unit''
      = construct_one (Unit_init vs) (JObj dev) ''unit''"
    by (rule construct_one_strip [where ks = Unit_fields])
      (simp_all add: Device_fields_def strip_nested_cases init_known_only)
  have i: "construct_all (Interface_init vs) (JObj (strip_unknown dev)) ''knownInterfaces''
      = construct_all (Interface_init vs) (JObj dev) ''knownInterfaces''"
    by (rule construct_all_strip [where ks = Interface_fields])
      (simp_all add: Device_fields_def strip_nested_cases init_known_only)
  have c: "construct_all (Connection_init vs) (JObj (strip_unknown dev)) ''connections''
      = construct_all (Connection_init vs) (JObj dev) ''connections''"
    by (rule construct_all_strip [where ks = Connection_fields])
      (simp_all add: Device_fields_def strip_nested_cases init_known_only)
  have p: "construct_all (Property_init vs) (JObj (strip_unknown dev)) ''properties''
      = construct_all (Property_init vs) (JObj dev) ''properties''"
    by (rule construct_all_strip [where ks = Property_fields])
      (simp_all add: Device_fields_def strip_nested_cases init_known_only)
  show ?thesis
    unfolding parse_device.simps m u i c p Device_init_strip by (rule refl)
qed

lemma strip_unknown_Cons:
  "k \<notin> set Device_fields \<Longrightarrow> strip_unknown ((k, v) # dev) = strip_unknown dev"
  by (simp add: strip_unknown_def known_only_def)

text \<open>
  C8. For every device JSON record, parsing gives exactly what parsing the record without
  its unknown fields gives, where the unknown fields are removed at the top level and
  inside \<open>model\<close>, \<open>unit\<close>, each interface, each connection and each property: a record
  that is valid apart from unknown fields parses without error, to the device of the
  record without them, so the unknown fields leave no trace in the result. In particular
  a field with an unknown name added at the top level does not change the result.
\<close>

theorem unknown_fields_ignored:
  "parse_device vs (JObj dev) = parse_device vs (JObj (strip_unknown dev))
   \<and> (parse_device vs (JObj (strip_unknown dev)) = Inr d \<longrightarrow> parse_device vs (JObj dev) = Inr d)
   \<and> (k \<notin> set Device_fields \<longrightarrow> parse_device vs (JObj ((k, v) # dev)) = parse_device vs (JObj dev))
   \<and> set (map fst (strip_unknown dev)) \<subseteq> set Device_fields"
proof -
  have 1: "parse_device vs (JObj dev) = parse_device vs (JObj (strip_unknown dev))"
    by (rule parse_device_strip [symmetric])
  have 4: "parse_device vs (JObj (strip_unknown dev)) = Inr d \<longrightarrow> parse_device vs (JObj dev) = Inr d"
    unfolding parse_device_strip by (rule impI)
  have 2: "k \<notin> set Device_fields \<longrightarrow>
      parse_device vs (JObj ((k, v) # dev)) = parse_device vs (JObj dev)"
  proof
    assume k: "k \<notin> set Device_fields"
    have "parse_device vs (JObj ((k, v) # dev)) = parse_device vs (JObj (strip_unknown ((k, v) # dev)))"
      by (simp only: parse_device_strip)
    also have "\<dots> = parse_device vs (JObj (strip_unknown dev))"
      by (simp only: strip_unknown_Cons [OF k])
    also have "\<dots> = parse_device vs (JObj dev)"
      by (simp only: parse_device_strip)
    finally show "parse_device vs (JObj ((k, v) # dev)) = parse_device vs (JObj dev)" .
  qed
  have 3: "set (map fst (strip_unknown dev)) \<subseteq> set Device_fields"
    by (auto simp: strip_unknown_def known_only_def)
  from 1 4 2 3 show ?thesis by (intro conjI)
qed

theorem unknown_fields_ignored_witness:
  "strip_unknown extended_json = minimal_json
   \<and> parse_device lax_validators (JObj minimal_json) = Inr (plain_device None [tv_interface])
   \<and> parse_device lax_validators (JObj extended_json) = Inr (plain_device None [tv_interface])
   \<and> ''firmwareChannel'' \<notin> set Device_fields
   \<and> parse_device lax_validators (JObj ((''firmwareChannel'', JStr ''beta'') # minimal_json))
       = Inr (plain_device None [tv_interface])"
proof -
  have st: "strip_unknown extended_json = minimal_json"
    by (simp add: strip_unknown_def known_only_def strip_nested_def field_defs example_json_defs)
  have ev: "parse_device lax_validators (JObj minimal_json) = Inr (plain_device None [tv_interface])"
    by (simp add: minimal_json_def tv_interface_json_def parse_defs lax_defs plain_device_def
        tv_interface_def)
  have k: "''firmwareChannel'' \<notin> set Device_fields"
    by (simp add: Device_fields_def)
  show ?thesis
    using unknown_fields_ignored [of lax_validators extended_json
        "plain_device None [tv_interface]" "''firmwareChannel''" "JStr ''beta''"]
      unknown_fields_ignored [of lax_validators minimal_json
        "plain_device None [tv_interface]" "''firmwareChannel''" "JStr ''beta''"]
      st ev k
    by simp
qed

end
